theory Spec2Isabelle
  imports Main
begin

section \<open>The GitLab OAuth authorization provider: data model\<close>

text \<open>
  The embedding follows \<open>RepoPerms\<close> and \<open>fetchProjVis\<close> of package \<open>gitlab\<close>
  (the OAuth authz provider). Go maps used as sets (\<open>map[authz.Repo]struct{}\<close>) are
  lists: the list order is the order in which \<open>range\<close> visits the keys, and every
  universally quantified statement below holds for every such order. The later loops
  visit their sets in the order the first loop met the repositories; what is proved of
  a loop depends on the set it visits only. The shared cache
  and the remote code host are explicit: the cache is part of a \<open>world\<close> value that
  every effectful function takes and returns, together with a trace of the remote
  calls, cache writes and log lines performed; the remote host and the I/O failures
  of the store are functions of an \<open>env\<close> value.
\<close>

subsection \<open>Errors\<close>

datatype atoi_err = ErrSyntax | ErrRange

datatype error =
    NumError string atoi_err  \<comment> \<open>\<open>strconv.NumError{"Atoi", s, err}\<close>\<close>
  | HTTPError int             \<comment> \<open>the remote host answered with this HTTP status\<close>
  | TransportError string     \<comment> \<open>timeouts, malformed responses, ...\<close>
  | DecodeError string        \<comment> \<open>undecodable external-account data\<close>
  | CacheIOError string       \<comment> \<open>I/O error of the underlying store\<close>
  | Wrap error string         \<comment> \<open>\<open>errors.Wrap(err, msg)\<close>\<close>

subsection \<open>\<open>strconv.Atoi\<close>\<close>

text \<open>
  Go's \<open>strconv.Atoi\<close> on a 64-bit platform: an optional sign, then at least one decimal
  digit and nothing else. The digits are read from the left (\<open>ParseUint\<close>): a character
  that is not a digit is a syntax error, and a value that leaves the range of \<open>uint64\<close>
  is a range error, whichever comes first. A value that fits \<open>uint64\<close> but not \<open>int\<close> is
  a range error (\<open>ParseInt\<close>).
\<close>

fun digits_val :: "string \<Rightarrow> nat \<Rightarrow> atoi_err + nat" where
  "digits_val [] n = Inr n"
| "digits_val (c # cs) n =
     (let d = (of_char c :: nat)
      in if 48 \<le> d \<and> d \<le> 57 then
           (let n1 = n * 10 + (d - 48)
            in if n1 > 2 ^ 64 - 1 then Inl ErrRange else digits_val cs n1)
         else Inl ErrSyntax)"

definition Atoi :: "string \<Rightarrow> error + int" where
  "Atoi s =
     (case s of
        [] \<Rightarrow> Inl (NumError s ErrSyntax)
      | c # cs \<Rightarrow>
          (let neg = (c = CHR ''-'');
               body = (if c = CHR ''-'' \<or> c = CHR ''+'' then cs else s)
           in if body = [] then Inl (NumError s ErrSyntax)
              else (case digits_val body 0 of
                      Inl k \<Rightarrow> Inl (NumError s k)
                    | Inr n \<Rightarrow>
                        if neg then (if n > 2 ^ 63 then Inl (NumError s ErrRange)
                                     else Inr (- int n))
                        else (if n > 2 ^ 63 - 1 then Inl (NumError s ErrRange)
                              else Inr (int n)))))"

subsection \<open>Repositories, accounts, the provider\<close>

type_synonym Visibility = string  \<comment> \<open>\<open>gitlab.Visibility\<close> is a Go string type\<close>

text \<open>
  Modelled from the spec: the three visibility constants of \<open>pkg/extsvc/gitlab\<close>, whose
  declaration is not among the sources. The spec enumerates the classifications public,
  internal and private; \<open>fetchProjVis\<close> also returns the empty string as a visibility.
\<close>

definition Public :: Visibility where "Public = ''public''"
definition Internal :: Visibility where "Internal = ''internal''"
definition Private :: Visibility where "Private = ''private''"

datatype Perm = Read  \<comment> \<open>\<open>authz.Read\<close>\<close>

type_synonym RepoName = string
type_synonym perms = "RepoName \<rightharpoonup> (Perm \<rightharpoonup> bool)"

record ExternalRepoSpec =
  ID :: string
  spec_ServiceType :: string
  spec_ServiceID :: string

record Repo =
  RepoName :: RepoName
  ExternalRepoSpec :: ExternalRepoSpec

type_synonym ExternalAccountData = string  \<comment> \<open>the stored, serialized payload\<close>

record ExternalAccount =
  acct_ServiceType :: string
  acct_ServiceID :: string
  AccountID :: string
  ExternalAccountData :: ExternalAccountData

record CodeHost =
  ch_ServiceID :: string
  ch_ServiceType :: string

record GitLabOAuthAuthzProvider =
  codeHost :: CodeHost
  cacheTTL :: int  \<comment> \<open>\<open>time.Duration\<close>\<close>

definition ServiceID :: "GitLabOAuthAuthzProvider \<Rightarrow> string" where
  "ServiceID p = ch_ServiceID (codeHost p)"

definition ServiceType :: "GitLabOAuthAuthzProvider \<Rightarrow> string" where
  "ServiceType p = ch_ServiceType (codeHost p)"

subsection \<open>The cache, the remote host and the trace of effects\<close>

record repoVisibilityCacheVal =
  rv_Visibility :: Visibility
  rv_TTL :: int

record userRepoCacheVal =
  ur_Read :: bool
  ur_TTL :: int

record Project =
  proj_Visibility :: Visibility

datatype event =
    EvFetch string int                              \<comment> \<open>\<open>GetProject\<close> with a token, for a project\<close>
  | EvSetRepoVisibility int repoVisibilityCacheVal  \<comment> \<open>a call of \<open>cacheSetRepoVisibility\<close>\<close>
  | EvSetUserRepo string int userRepoCacheVal       \<comment> \<open>a call of \<open>cacheSetUserRepo\<close>\<close>
  | EvLogError int error                            \<comment> \<open>\<open>log15.Error\<close>\<close>

record world =
  visCache :: "int \<rightharpoonup> repoVisibilityCacheVal"
  userCache :: "(string \<times> int) \<rightharpoonup> userRepoCacheVal"
  trace :: "event list"

record env =
  GetProject :: "string \<Rightarrow> int \<Rightarrow> error + Project"
    \<comment> \<open>\<open>clientProvider.GetOAuthClient(accessToken).GetProject(ctx, projID, "")\<close>\<close>
  GetExternalAccountData :: "ExternalAccountData \<Rightarrow> error + string"
    \<comment> \<open>\<open>gitlab.GetExternalAccountData\<close>, reduced to the access token of the decoded token\<close>
  setRepoVisibilityErr :: "int \<Rightarrow> error option"
    \<comment> \<open>the store's I/O failure on a visibility write, if any\<close>
  setUserRepoErr :: "string \<Rightarrow> int \<Rightarrow> error option"
    \<comment> \<open>the store's I/O failure on a user-access write, if any\<close>

text \<open>
  Modelled from the spec: the cache helpers \<open>cacheGetRepoVisibility\<close>,
  \<open>cacheSetRepoVisibility\<close>, \<open>cacheGetUserRepo\<close> and \<open>cacheSetUserRepo\<close> of this package,
  which are not among the sources. \<open>get(repoID) -> (Visibility, found)\<close>, where found is
  false if the key is absent or its TTL has elapsed: the maps of a \<open>world\<close> hold the
  entries that are present and fresh at the time of the call. \<open>set\<close> stores the entry
  and fails only on the underlying store's I/O error. Every call of a \<open>set\<close> is
  recorded in the trace, whether the write succeeds or not.
\<close>

definition cacheGetRepoVisibility :: "world \<Rightarrow> int \<Rightarrow> int \<Rightarrow> repoVisibilityCacheVal option" where
  "cacheGetRepoVisibility w projID ttl = visCache w projID"

definition cacheGetUserRepo :: "world \<Rightarrow> string \<Rightarrow> int \<Rightarrow> int \<Rightarrow> userRepoCacheVal option" where
  "cacheGetUserRepo w userAccountID projID ttl = userCache w (userAccountID, projID)"

definition cacheSetRepoVisibility ::
  "env \<Rightarrow> world \<Rightarrow> int \<Rightarrow> repoVisibilityCacheVal \<Rightarrow> error option \<times> world" where
  "cacheSetRepoVisibility e w projID v =
     (let w1 = w\<lparr>trace := trace w @ [EvSetRepoVisibility projID v]\<rparr>
      in case setRepoVisibilityErr e projID of
           Some err \<Rightarrow> (Some err, w1)
         | None \<Rightarrow> (None, w1\<lparr>visCache := (visCache w1)(projID \<mapsto> v)\<rparr>))"

definition cacheSetUserRepo ::
  "env \<Rightarrow> world \<Rightarrow> string \<Rightarrow> int \<Rightarrow> userRepoCacheVal \<Rightarrow> error option \<times> world" where
  "cacheSetUserRepo e w userAccountID projID v =
     (let w1 = w\<lparr>trace := trace w @ [EvSetUserRepo userAccountID projID v]\<rparr>
      in case setUserRepoErr e userAccountID projID of
           Some err \<Rightarrow> (Some err, w1)
         | None \<Rightarrow> (None, w1\<lparr>userCache := (userCache w1)((userAccountID, projID) \<mapsto> v)\<rparr>))"

text \<open>
  Modelled from the spec: \<open>gitlab.HTTPErrorCode\<close> (not among the sources), the HTTP status
  of a failed request, by which a not-found answer is told from every other failure.
\<close>

fun HTTPErrorCode :: "error \<Rightarrow> int" where
  "HTTPErrorCode (HTTPError c) = c"
| "HTTPErrorCode (Wrap err msg) = HTTPErrorCode err"
| "HTTPErrorCode _ = 0"

definition StatusNotFound :: int where
  "StatusNotFound = 404"

text \<open>
  Modelled from the spec: \<open>authz.GetCodeHostRepos\<close> (not among the sources), the
  classification of a repository set into the repositories this provider's code host
  owns and the others, by the service identity of the repository's external spec.
\<close>

definition IsHostOf :: "CodeHost \<Rightarrow> Repo \<Rightarrow> bool" where
  "IsHostOf c repo \<longleftrightarrow>
     spec_ServiceType (ExternalRepoSpec repo) = ch_ServiceType c \<and>
     spec_ServiceID (ExternalRepoSpec repo) = ch_ServiceID c"

definition GetCodeHostRepos :: "CodeHost \<Rightarrow> Repo list \<Rightarrow> Repo list \<times> Repo list" where
  "GetCodeHostRepos c repos = (filter (IsHostOf c) repos, filter (\<lambda>r. \<not> IsHostOf c r) repos)"

definition Repos :: "GitLabOAuthAuthzProvider \<Rightarrow> Repo list \<Rightarrow> Repo list \<times> Repo list" where
  "Repos p repos = GetCodeHostRepos (codeHost p) repos"

section \<open>\<open>fetchProjVis\<close>\<close>

text \<open>
  The result is the Go triple \<open>(isAccessible, vis, err)\<close>, with \<open>None\<close> for a nil error.
\<close>

definition fetchProjVis ::
  "env \<Rightarrow> string \<Rightarrow> int \<Rightarrow> world \<Rightarrow> (bool \<times> Visibility \<times> error option) \<times> world" where
  "fetchProjVis e accessToken projID w =
     (let w1 = w\<lparr>trace := trace w @ [EvFetch accessToken projID]\<rparr>
      in case GetProject e accessToken projID of
           Inl err \<Rightarrow>
             if HTTPErrorCode err = StatusNotFound then ((False, [], None), w1)
             else ((False, [], Some err), w1)
         | Inr proj \<Rightarrow> ((True, proj_Visibility proj, None), w1))"

section \<open>\<open>RepoPerms\<close>\<close>

definition accountIDOf :: "GitLabOAuthAuthzProvider \<Rightarrow> ExternalAccount option \<Rightarrow> string" where
  "accountIDOf p account =
     (case account of
        None \<Rightarrow> []
      | Some a \<Rightarrow>
          if acct_ServiceID a = ServiceID p \<and> acct_ServiceType a = ServiceType p
          then AccountID a else [])"

definition parseErr :: "error \<Rightarrow> error" where
  "parseErr err = Wrap err ''GitLab repo external ID did not parse to int''"

text \<open>The loop "Check cached visibility" (lines 95 to 113).\<close>

fun checkCachedVisibility ::
  "GitLabOAuthAuthzProvider \<Rightarrow> string \<Rightarrow> world \<Rightarrow> Repo list \<Rightarrow> perms \<times> Repo list
   \<Rightarrow> error + (perms \<times> Repo list)" where
  "checkCachedVisibility p accountID w [] (perms, nextRemaining) = Inr (perms, nextRemaining)"
| "checkCachedVisibility p accountID w (repo # rest) (perms, nextRemaining) =
     (case Atoi (ID (ExternalRepoSpec repo)) of
        Inl err \<Rightarrow> Inl (parseErr err)
      | Inr projID \<Rightarrow>
          (case cacheGetRepoVisibility w projID (cacheTTL p) of
             None \<Rightarrow> checkCachedVisibility p accountID w rest (perms, nextRemaining @ [repo])
           | Some vis \<Rightarrow>
               if rv_Visibility vis = Public \<or> (rv_Visibility vis = Internal \<and> accountID \<noteq> [])
               then checkCachedVisibility p accountID w rest
                      (perms(RepoName repo \<mapsto> [Read \<mapsto> True]), nextRemaining)
               else checkCachedVisibility p accountID w rest (perms, nextRemaining @ [repo])))"

text \<open>The loop "Check cached user repos" (lines 122 to 133).\<close>

fun checkCachedUserRepos ::
  "GitLabOAuthAuthzProvider \<Rightarrow> string \<Rightarrow> world \<Rightarrow> Repo list \<Rightarrow> perms \<times> Repo list
   \<Rightarrow> error + (perms \<times> Repo list)" where
  "checkCachedUserRepos p accountID w [] (perms, nextRemaining) = Inr (perms, nextRemaining)"
| "checkCachedUserRepos p accountID w (repo # rest) (perms, nextRemaining) =
     (case Atoi (ID (ExternalRepoSpec repo)) of
        Inl err \<Rightarrow> Inl (parseErr err)
      | Inr projID \<Rightarrow>
          (case cacheGetUserRepo w accountID projID (cacheTTL p) of
             None \<Rightarrow> checkCachedUserRepos p accountID w rest (perms, nextRemaining @ [repo])
           | Some userRepo \<Rightarrow>
               checkCachedUserRepos p accountID w rest
                 (perms(RepoName repo \<mapsto> [Read \<mapsto> ur_Read userRepo]), nextRemaining)))"

text \<open>
  One iteration of the loop "Fetch and update cache" (lines 150 to 186), after the
  identifier has parsed: the new permission map, or the error the call returns.
\<close>

definition fetchAndUpdate ::
  "env \<Rightarrow> GitLabOAuthAuthzProvider \<Rightarrow> string \<Rightarrow> string \<Rightarrow> Repo \<Rightarrow> int \<Rightarrow> perms \<Rightarrow> world
   \<Rightarrow> (error + perms) \<times> world" where
  "fetchAndUpdate e p accountID accessToken repo projID perms w =
     (case fetchProjVis e accessToken projID w of
        ((isAccessible, vis, Some err), w1) \<Rightarrow>
          (Inr perms, w1\<lparr>trace := trace w1 @ [EvLogError projID err]\<rparr>)
      | ((isAccessible, vis, None), w1) \<Rightarrow>
          if isAccessible then
            (case cacheSetRepoVisibility e w1 projID
                    \<lparr>rv_Visibility = vis, rv_TTL = cacheTTL p\<rparr> of
               (Some err, w2) \<Rightarrow> (Inl (Wrap err ''could not set cached repo visibility''), w2)
             | (None, w2) \<Rightarrow>
                 if vis = Private then
                   (case cacheSetUserRepo e w2 accountID projID
                           \<lparr>ur_Read = True, ur_TTL = cacheTTL p\<rparr> of
                      (Some err, w3) \<Rightarrow> (Inl (Wrap err ''could not set cached user repo''), w3)
                    | (None, w3) \<Rightarrow> (Inr (perms(RepoName repo \<mapsto> [Read \<mapsto> True])), w3))
                 else (Inr (perms(RepoName repo \<mapsto> [Read \<mapsto> True])), w2))
          else if accountID \<noteq> [] then
            (case cacheSetRepoVisibility e w1 projID
                    \<lparr>rv_Visibility = Private, rv_TTL = cacheTTL p\<rparr> of
               (Some err, w2) \<Rightarrow> (Inl (Wrap err ''could not set cached repo visibility''), w2)
             | (None, w2) \<Rightarrow>
                 (case cacheSetUserRepo e w2 accountID projID
                         \<lparr>ur_Read = False, ur_TTL = cacheTTL p\<rparr> of
                    (Some err, w3) \<Rightarrow> (Inl (Wrap err ''could not set cached user repo''), w3)
                  | (None, w3) \<Rightarrow> (Inr perms, w3)))
          else (Inr perms, w1))"

text \<open>The loop "Fetch and update cache" (lines 149 to 187).\<close>

fun fetchAndUpdateCache ::
  "env \<Rightarrow> GitLabOAuthAuthzProvider \<Rightarrow> string \<Rightarrow> string \<Rightarrow> Repo list \<Rightarrow> perms \<Rightarrow> world
   \<Rightarrow> (error + perms) \<times> world" where
  "fetchAndUpdateCache e p accountID accessToken [] perms w = (Inr perms, w)"
| "fetchAndUpdateCache e p accountID accessToken (repo # rest) perms w =
     (case Atoi (ID (ExternalRepoSpec repo)) of
        Inl err \<Rightarrow> (Inl (parseErr err), w)
      | Inr projID \<Rightarrow>
          (case fetchAndUpdate e p accountID accessToken repo projID perms w of
             (Inl err, w') \<Rightarrow> (Inl err, w')
           | (Inr perms', w') \<Rightarrow> fetchAndUpdateCache e p accountID accessToken rest perms' w'))"

text \<open>
  The part of \<open>RepoPerms\<close> before the remote fetches (lines 84 to 138): either the call
  returns (\<open>Return\<close>), or it goes on to fetch with the permission map built so far and
  the value of the variable \<open>remaining\<close> at line 149 (\<open>Fetch\<close>). That variable is assigned
  at line 91 and, for a non-empty account identifier only, at line 121.
\<close>

datatype flow = Return "error + perms" | Fetch perms "Repo list"

definition checkCaches ::
  "GitLabOAuthAuthzProvider \<Rightarrow> string \<Rightarrow> Repo list \<Rightarrow> world \<Rightarrow> flow" where
  "checkCaches p accountID repos w =
     (let remaining = fst (Repos p repos)
      in case checkCachedVisibility p accountID w remaining (Map.empty, []) of
           Inl err \<Rightarrow> Return (Inl err)
         | Inr (perms, nextRemaining) \<Rightarrow>
             if length nextRemaining = 0 then Return (Inr perms)
             else if accountID \<noteq> [] then
               (let remaining = nextRemaining
                in case checkCachedUserRepos p accountID w remaining (perms, []) of
                     Inl err \<Rightarrow> Return (Inl err)
                   | Inr (perms, nextRemaining) \<Rightarrow>
                       if length nextRemaining = 0 then Return (Inr perms)
                       else Fetch perms remaining)
             else Fetch perms remaining)"

text \<open>
  Lines 141 to 148: the access token is the empty string for a nil account and is
  decoded from the stored external-account data of every other account.
\<close>

definition accessTokenOf :: "env \<Rightarrow> ExternalAccount option \<Rightarrow> error + string" where
  "accessTokenOf e account =
     (case account of
        None \<Rightarrow> Inr []
      | Some a \<Rightarrow> GetExternalAccountData e (ExternalAccountData a))"

definition RepoPerms ::
  "env \<Rightarrow> GitLabOAuthAuthzProvider \<Rightarrow> ExternalAccount option \<Rightarrow> Repo list \<Rightarrow> world
   \<Rightarrow> (error + perms) \<times> world" where
  "RepoPerms e p account repos w =
     (let accountID = accountIDOf p account
      in case checkCaches p accountID repos w of
           Return r \<Rightarrow> (r, w)
         | Fetch perms remaining \<Rightarrow>
             (case accessTokenOf e account of
                Inl err \<Rightarrow> (Inl err, w)
              | Inr accessToken \<Rightarrow>
                  fetchAndUpdateCache e p accountID accessToken remaining perms w))"

section \<open>Notions used to state the properties\<close>

text \<open>The events a call appended to the trace.\<close>

definition newEvents :: "world \<Rightarrow> world \<Rightarrow> event list" where
  "newEvents w w' = drop (length (trace w)) (trace w')"

text \<open>
  What the fetch loop writes for a project, as a function of the remote host's answer
  (lines 159 to 186): the visibility entry, the user-access entry, and with them the
  events one run of the loop may append to the trace.
\<close>

definition expectedVis ::
  "env \<Rightarrow> GitLabOAuthAuthzProvider \<Rightarrow> string \<Rightarrow> string \<Rightarrow> int \<Rightarrow> repoVisibilityCacheVal option" where
  "expectedVis e p accountID accessToken projID =
     (case GetProject e accessToken projID of
        Inr proj \<Rightarrow> Some \<lparr>rv_Visibility = proj_Visibility proj, rv_TTL = cacheTTL p\<rparr>
      | Inl err \<Rightarrow>
          if HTTPErrorCode err = StatusNotFound \<and> accountID \<noteq> []
          then Some \<lparr>rv_Visibility = Private, rv_TTL = cacheTTL p\<rparr> else None)"

definition expectedUser ::
  "env \<Rightarrow> GitLabOAuthAuthzProvider \<Rightarrow> string \<Rightarrow> string \<Rightarrow> int \<Rightarrow> userRepoCacheVal option" where
  "expectedUser e p accountID accessToken projID =
     (case GetProject e accessToken projID of
        Inr proj \<Rightarrow>
          if proj_Visibility proj = Private
          then Some \<lparr>ur_Read = True, ur_TTL = cacheTTL p\<rparr> else None
      | Inl err \<Rightarrow>
          if HTTPErrorCode err = StatusNotFound \<and> accountID \<noteq> []
          then Some \<lparr>ur_Read = False, ur_TTL = cacheTTL p\<rparr> else None)"

fun expectedEvent ::
  "env \<Rightarrow> GitLabOAuthAuthzProvider \<Rightarrow> string \<Rightarrow> string \<Rightarrow> event \<Rightarrow> bool" where
  "expectedEvent e p accountID accessToken (EvFetch t q) = (t = accessToken)"
| "expectedEvent e p accountID accessToken (EvSetRepoVisibility q v) =
     (expectedVis e p accountID accessToken q = Some v)"
| "expectedEvent e p accountID accessToken (EvSetUserRepo u q v) =
     (u = accountID \<and> expectedUser e p accountID accessToken q = Some v)"
| "expectedEvent e p accountID accessToken (EvLogError q err) =
     (GetProject e accessToken q = Inl err \<and> HTTPErrorCode err \<noteq> StatusNotFound)"

text \<open>
  Whether the remote host reports a repository as accessible to the holder of a token.
\<close>

definition fetchAccessible :: "env \<Rightarrow> string \<Rightarrow> Repo \<Rightarrow> bool" where
  "fetchAccessible e accessToken repo =
     (case Atoi (ID (ExternalRepoSpec repo)) of
        Inl err \<Rightarrow> False
      | Inr projID \<Rightarrow> (case GetProject e accessToken projID of Inl err \<Rightarrow> False | Inr proj \<Rightarrow> True))"

text \<open>
  Whether the visibility cache alone settles a repository (lines 105 to 111), and the
  cached per-account grant of a repository (line 127).
\<close>

definition resolvedByVisibility :: "world \<Rightarrow> string \<Rightarrow> Repo \<Rightarrow> bool" where
  "resolvedByVisibility w accountID repo =
     (case Atoi (ID (ExternalRepoSpec repo)) of
        Inl err \<Rightarrow> False
      | Inr projID \<Rightarrow>
          (case visCache w projID of
             None \<Rightarrow> False
           | Some vis \<Rightarrow>
               rv_Visibility vis = Public \<or> (rv_Visibility vis = Internal \<and> accountID \<noteq> [])))"

definition cachedUserRepo :: "world \<Rightarrow> string \<Rightarrow> Repo \<Rightarrow> userRepoCacheVal option" where
  "cachedUserRepo w accountID repo =
     (case Atoi (ID (ExternalRepoSpec repo)) of
        Inl err \<Rightarrow> None
      | Inr projID \<Rightarrow> userCache w (accountID, projID))"


section \<open>Example inputs\<close>

text \<open>
  A provider for one GitLab host, repositories of that host, accounts, and a remote
  host that knows five projects: 1 is private and visible to the holder of \<open>tok1\<close>
  only, 2 does not exist, 3 fails with a server error, 4 is public, 5 is internal.
\<close>

definition gitlabHost :: CodeHost where
  "gitlabHost = \<lparr>ch_ServiceID = ''https://gitlab.com/'', ch_ServiceType = ''gitlab''\<rparr>"

definition gitlabProvider :: GitLabOAuthAuthzProvider where
  "gitlabProvider = \<lparr>codeHost = gitlabHost, cacheTTL = 3600\<rparr>"

definition gitlabRepo :: "string \<Rightarrow> string \<Rightarrow> Repo" where
  "gitlabRepo name ident =
     \<lparr>RepoName = name,
      ExternalRepoSpec = \<lparr>ID = ident, spec_ServiceType = ''gitlab'',
                          spec_ServiceID = ''https://gitlab.com/''\<rparr>\<rparr>"

definition user1 :: ExternalAccount where
  "user1 = \<lparr>acct_ServiceType = ''gitlab'', acct_ServiceID = ''https://gitlab.com/'',
            AccountID = ''user1'', ExternalAccountData = ''data1''\<rparr>"

definition otherHostUser :: ExternalAccount where
  "otherHostUser = \<lparr>acct_ServiceType = ''gitlab'', acct_ServiceID = ''https://gitlab.example.com/'',
                    AccountID = ''user1'', ExternalAccountData = ''data1''\<rparr>"

definition noIdentifierUser :: ExternalAccount where
  "noIdentifierUser = \<lparr>acct_ServiceType = ''gitlab'', acct_ServiceID = ''https://gitlab.com/'',
                       AccountID = [], ExternalAccountData = ''data1''\<rparr>"

definition undecodableUser :: ExternalAccount where
  "undecodableUser = \<lparr>acct_ServiceType = ''gitlab'', acct_ServiceID = ''https://gitlab.example.com/'',
                      AccountID = ''user2'', ExternalAccountData = ''garbage''\<rparr>"

definition remoteProjects :: "string \<Rightarrow> int \<Rightarrow> error + Project" where
  "remoteProjects accessToken projID =
     (if projID = 1 then
        (if accessToken = ''tok1'' then Inr \<lparr>proj_Visibility = Private\<rparr>
         else Inl (HTTPError 404))
      else if projID = 3 then Inl (HTTPError 500)
      else if projID = 4 then Inr \<lparr>proj_Visibility = Public\<rparr>
      else if projID = 5 then
        (if accessToken = [] then Inl (HTTPError 404)
         else Inr \<lparr>proj_Visibility = Internal\<rparr>)
      else Inl (HTTPError 404))"

definition decodeAccountData :: "ExternalAccountData \<Rightarrow> error + string" where
  "decodeAccountData d = (if d = ''data1'' then Inr ''tok1'' else Inl (DecodeError d))"

definition exampleEnv :: env where
  "exampleEnv =
     \<lparr>GetProject = remoteProjects,
      GetExternalAccountData = decodeAccountData,
      setRepoVisibilityErr = (\<lambda>projID. None),
      setUserRepoErr = (\<lambda>userAccountID projID. None)\<rparr>"

definition brokenStoreEnv :: env where
  "brokenStoreEnv = exampleEnv\<lparr>setRepoVisibilityErr := (\<lambda>projID. Some (CacheIOError ''down''))\<rparr>"

definition emptyWorld :: world where
  "emptyWorld = \<lparr>visCache = Map.empty, userCache = Map.empty, trace = []\<rparr>"

text \<open>
  A cache that knows project 4 as public, and a cache that knows project 1 as private
  and holds a denial of it for \<open>user1\<close>.
\<close>

definition publicCachedWorld :: world where
  "publicCachedWorld =
     \<lparr>visCache = [4 \<mapsto> \<lparr>rv_Visibility = Public, rv_TTL = 3600\<rparr>],
      userCache = Map.empty, trace = []\<rparr>"

definition deniedCachedWorld :: world where
  "deniedCachedWorld =
     \<lparr>visCache = [1 \<mapsto> \<lparr>rv_Visibility = Private, rv_TTL = 3600\<rparr>],
      userCache = [(''user1'', 1) \<mapsto> \<lparr>ur_Read = False, ur_TTL = 3600\<rparr>], trace = []\<rparr>"

text \<open>
  A repository of another code host, whose identifier is not a number, and a cache
  that knows project 2 as private and holds a grant of it for \<open>user1\<close>.
\<close>

definition githubRepo :: "string \<Rightarrow> string \<Rightarrow> Repo" where
  "githubRepo name ident =
     \<lparr>RepoName = name,
      ExternalRepoSpec = \<lparr>ID = ident, spec_ServiceType = ''github'',
                          spec_ServiceID = ''https://github.com/''\<rparr>\<rparr>"

definition grantedCachedWorld :: world where
  "grantedCachedWorld =
     \<lparr>visCache = [2 \<mapsto> \<lparr>rv_Visibility = Private, rv_TTL = 3600\<rparr>],
      userCache = [(''user1'', 2) \<mapsto> \<lparr>ur_Read = True, ur_TTL = 3600\<rparr>], trace = []\<rparr>"

section \<open>Properties\<close>

subsection \<open>One iteration of the fetch loop\<close>

text \<open>
  An iteration records its fetch first and then only events that the answer of the
  remote host calls for; it changes no cache entry except to the entry that answer
  calls for; it returns an error only when the store fails on such a write.
\<close>

lemmas step_defs = fetchAndUpdate_def fetchProjVis_def cacheSetRepoVisibility_def
  cacheSetUserRepo_def Let_def

lemma step_trace:
  assumes "fetchAndUpdate e p a tok r pid perms w = (res, w')"
  shows "\<exists>evs. trace w' = trace w @ EvFetch tok pid # evs \<and>
           (\<forall>ev\<in>set evs. expectedEvent e p a tok ev)"
  using assms unfolding step_defs
  by (auto simp: expectedVis_def expectedUser_def split: sum.splits option.splits if_splits)

lemma step_visCache:
  assumes "fetchAndUpdate e p a tok r pid perms w = (res, w')"
  shows "visCache w' q = visCache w q \<or>
           (q = pid \<and> (\<exists>v. expectedVis e p a tok pid = Some v \<and> visCache w' q = Some v))"
  using assms unfolding step_defs
  by (auto simp: expectedVis_def split: sum.splits option.splits if_splits)

lemma step_userCache:
  assumes "fetchAndUpdate e p a tok r pid perms w = (res, w')"
  shows "userCache w' k = userCache w k \<or>
           (k = (a, pid) \<and> (\<exists>v. expectedUser e p a tok pid = Some v \<and> userCache w' k = Some v))"
  using assms unfolding step_defs
  by (auto simp: expectedUser_def split: sum.splits option.splits if_splits)

lemma step_perms:
  assumes "fetchAndUpdate e p a tok r pid perms w = (Inr perms', w')"
  shows "perms' = (case GetProject e tok pid of
                     Inr proj \<Rightarrow> perms(RepoName r \<mapsto> [Read \<mapsto> True])
                   | Inl err \<Rightarrow> perms)"
  using assms unfolding step_defs
  by (auto split: sum.splits option.splits if_splits)

lemma step_written:
  assumes "fetchAndUpdate e p a tok r pid perms w = (Inr perms', w')"
  shows "(\<forall>v. expectedVis e p a tok pid = Some v \<longrightarrow>
            visCache w' pid = Some v \<and> setRepoVisibilityErr e pid = None \<and>
            EvSetRepoVisibility pid v \<in> set (newEvents w w')) \<and>
         (\<forall>v. expectedUser e p a tok pid = Some v \<longrightarrow>
            userCache w' (a, pid) = Some v \<and> setUserRepoErr e a pid = None \<and>
            EvSetUserRepo a pid v \<in> set (newEvents w w'))"
  using assms unfolding step_defs newEvents_def
  by (auto simp: expectedVis_def expectedUser_def split: sum.splits option.splits if_splits)

lemma step_error:
  assumes "fetchAndUpdate e p a tok r pid perms w = (Inl err, w')"
  shows "(\<exists>err0. setRepoVisibilityErr e pid = Some err0 \<and> expectedVis e p a tok pid \<noteq> None \<and>
            err = Wrap err0 ''could not set cached repo visibility'') \<or>
         (\<exists>err0. setUserRepoErr e a pid = Some err0 \<and> expectedUser e p a tok pid \<noteq> None \<and>
            err = Wrap err0 ''could not set cached user repo'')"
  using assms unfolding step_defs
  by (auto simp: expectedVis_def expectedUser_def split: sum.splits option.splits if_splits)

lemma step_total:
  assumes "expectedVis e p a tok pid \<noteq> None \<longrightarrow> setRepoVisibilityErr e pid = None"
    and "expectedUser e p a tok pid \<noteq> None \<longrightarrow> setUserRepoErr e a pid = None"
  shows "\<exists>perms' w'. fetchAndUpdate e p a tok r pid perms w = (Inr perms', w')"
  using assms unfolding step_defs
  by (auto simp: expectedVis_def expectedUser_def split: sum.splits option.splits if_splits)

lemma newEvents_append: "trace w' = trace w @ evs \<Longrightarrow> newEvents w w' = evs"
  by (simp add: newEvents_def)

lemma step_prefix:
  assumes "fetchAndUpdate e p a tok r pid perms w = (res, w')"
  shows "\<exists>evs. trace w' = trace w @ evs \<and> EvFetch tok pid \<in> set evs \<and>
           (\<forall>ev\<in>set evs. expectedEvent e p a tok ev)"
proof -
  from step_trace [OF assms] obtain evs where
    "trace w' = trace w @ EvFetch tok pid # evs" "\<forall>ev\<in>set evs. expectedEvent e p a tok ev"
    by blast
  then show ?thesis
    by (intro exI [of _ "EvFetch tok pid # evs"]) simp
qed

subsection \<open>The fetch loop\<close>

text \<open>
  The same holds of the whole loop, by induction over the repositories it visits. A
  loop that returns a map has set read = true exactly for the names of the
  repositories whose fetch returned accessible, and has made, for every repository it
  visited, the writes the answer of the remote host calls for.
\<close>

lemma loop_trace:
  "fetchAndUpdateCache e p a tok rs perms w = (res, w') \<Longrightarrow>
   \<exists>evs. trace w' = trace w @ evs \<and> (\<forall>ev\<in>set evs. expectedEvent e p a tok ev)"
proof (induction rs arbitrary: perms w)
  case Nil
  then show ?case by simp
next
  case (Cons r rs)
  show ?case
  proof (cases "Atoi (ID (ExternalRepoSpec r))")
    case (Inl err)
    with Cons.prems show ?thesis by simp
  next
    case (Inr pid)
    obtain res1 w1 where step: "fetchAndUpdate e p a tok r pid perms w = (res1, w1)"
      by (cases "fetchAndUpdate e p a tok r pid perms w") auto
    from step_prefix [OF step] obtain evs1 where
      t1: "trace w1 = trace w @ evs1" "\<forall>ev\<in>set evs1. expectedEvent e p a tok ev"
      by blast
    show ?thesis
    proof (cases res1)
      case (Inl err)
      with Cons.prems Inr step have "w' = w1" by simp
      with t1 show ?thesis by blast
    next
      case (Inr perms1)
      with Cons.prems \<open>Atoi (ID (ExternalRepoSpec r)) = Inr pid\<close> step
      have "fetchAndUpdateCache e p a tok rs perms1 w1 = (res, w')" by simp
      from Cons.IH [OF this] obtain evs2 where
        t2: "trace w' = trace w1 @ evs2" "\<forall>ev\<in>set evs2. expectedEvent e p a tok ev"
        by blast
      from t1 t2 have "trace w' = trace w @ (evs1 @ evs2)"
        "\<forall>ev\<in>set (evs1 @ evs2). expectedEvent e p a tok ev"
        by auto
      then show ?thesis by blast
    qed
  qed
qed

lemma loop_visCache:
  "fetchAndUpdateCache e p a tok rs perms w = (res, w') \<Longrightarrow>
   visCache w' q = visCache w q \<or>
   (\<exists>v. expectedVis e p a tok q = Some v \<and> visCache w' q = Some v)"
proof (induction rs arbitrary: perms w)
  case Nil
  then show ?case by simp
next
  case (Cons r rs)
  show ?case
  proof (cases "Atoi (ID (ExternalRepoSpec r))")
    case (Inl err)
    with Cons.prems show ?thesis by simp
  next
    case (Inr pid)
    obtain res1 w1 where step: "fetchAndUpdate e p a tok r pid perms w = (res1, w1)"
      by (cases "fetchAndUpdate e p a tok r pid perms w") auto
    note s1 = step_visCache [OF step, of q]
    show ?thesis
    proof (cases res1)
      case (Inl err)
      with Cons.prems Inr step have "w' = w1" by simp
      with s1 show ?thesis by auto
    next
      case (Inr perms1)
      with Cons.prems \<open>Atoi (ID (ExternalRepoSpec r)) = Inr pid\<close> step
      have "fetchAndUpdateCache e p a tok rs perms1 w1 = (res, w')" by simp
      from Cons.IH [OF this] s1 show ?thesis by force
    qed
  qed
qed

lemma loop_userCache:
  "fetchAndUpdateCache e p a tok rs perms w = (res, w') \<Longrightarrow>
   userCache w' (u, q) = userCache w (u, q) \<or>
   (u = a \<and> (\<exists>v. expectedUser e p a tok q = Some v \<and> userCache w' (u, q) = Some v))"
proof (induction rs arbitrary: perms w)
  case Nil
  then show ?case by simp
next
  case (Cons r rs)
  show ?case
  proof (cases "Atoi (ID (ExternalRepoSpec r))")
    case (Inl err)
    with Cons.prems show ?thesis by simp
  next
    case (Inr pid)
    obtain res1 w1 where step: "fetchAndUpdate e p a tok r pid perms w = (res1, w1)"
      by (cases "fetchAndUpdate e p a tok r pid perms w") auto
    note s1 = step_userCache [OF step, of "(u, q)"]
    show ?thesis
    proof (cases res1)
      case (Inl err)
      with Cons.prems Inr step have "w' = w1" by simp
      with s1 show ?thesis by auto
    next
      case (Inr perms1)
      with Cons.prems \<open>Atoi (ID (ExternalRepoSpec r)) = Inr pid\<close> step
      have "fetchAndUpdateCache e p a tok rs perms1 w1 = (res, w')" by simp
      from Cons.IH [OF this] s1 show ?thesis by force
    qed
  qed
qed

lemma loop_perms:
  "fetchAndUpdateCache e p a tok rs perms w = (Inr perms', w') \<Longrightarrow>
   perms' n = (if \<exists>r\<in>set rs. RepoName r = n \<and> fetchAccessible e tok r
               then Some [Read \<mapsto> True] else perms n)"
proof (induction rs arbitrary: perms w)
  case Nil
  then show ?case by simp
next
  case (Cons r rs)
  show ?case
  proof (cases "Atoi (ID (ExternalRepoSpec r))")
    case (Inl err)
    with Cons.prems show ?thesis by simp
  next
    case (Inr pid)
    obtain res1 w1 where step: "fetchAndUpdate e p a tok r pid perms w = (res1, w1)"
      by (cases "fetchAndUpdate e p a tok r pid perms w") auto
    show ?thesis
    proof (cases res1)
      case (Inl err)
      with Cons.prems Inr step show ?thesis by simp
    next
      case (Inr perms1)
      with Cons.prems \<open>Atoi (ID (ExternalRepoSpec r)) = Inr pid\<close> step
      have rest: "fetchAndUpdateCache e p a tok rs perms1 w1 = (Inr perms', w')" by simp
      from step Inr have "fetchAndUpdate e p a tok r pid perms w = (Inr perms1, w1)" by simp
      from step_perms [OF this]
      have p1: "perms1 = (if fetchAccessible e tok r then perms(RepoName r \<mapsto> [Read \<mapsto> True])
                          else perms)"
        using \<open>Atoi (ID (ExternalRepoSpec r)) = Inr pid\<close>
        by (simp add: fetchAccessible_def split: sum.splits)
      from Cons.IH [OF rest] p1 show ?thesis by auto
    qed
  qed
qed

lemma loop_written:
  "fetchAndUpdateCache e p a tok rs perms w = (Inr perms', w') \<Longrightarrow> r \<in> set rs \<Longrightarrow>
   Atoi (ID (ExternalRepoSpec r)) = Inr pid \<Longrightarrow>
   EvFetch tok pid \<in> set (newEvents w w') \<and>
   (\<forall>v. expectedVis e p a tok pid = Some v \<longrightarrow>
      visCache w' pid = Some v \<and> setRepoVisibilityErr e pid = None \<and>
      EvSetRepoVisibility pid v \<in> set (newEvents w w')) \<and>
   (\<forall>v. expectedUser e p a tok pid = Some v \<longrightarrow>
      userCache w' (a, pid) = Some v \<and> setUserRepoErr e a pid = None \<and>
      EvSetUserRepo a pid v \<in> set (newEvents w w'))"
proof (induction rs arbitrary: perms w)
  case Nil
  then show ?case by simp
next
  case (Cons x rs)
  show ?case
  proof (cases "Atoi (ID (ExternalRepoSpec x))")
    case (Inl err)
    with Cons.prems show ?thesis by simp
  next
    case (Inr xid)
    obtain res1 w1 where step: "fetchAndUpdate e p a tok x xid perms w = (res1, w1)"
      by (cases "fetchAndUpdate e p a tok x xid perms w") auto
    show ?thesis
    proof (cases res1)
      case (Inl err)
      with Cons.prems Inr step show ?thesis by simp
    next
      case (Inr perms1)
      with Cons.prems(1) \<open>Atoi (ID (ExternalRepoSpec x)) = Inr xid\<close> step
      have rest: "fetchAndUpdateCache e p a tok rs perms1 w1 = (Inr perms', w')" by simp
      from step Inr have step': "fetchAndUpdate e p a tok x xid perms w = (Inr perms1, w1)"
        by simp
      from step_prefix [OF step] obtain evs1 where
        t1: "trace w1 = trace w @ evs1" "EvFetch tok xid \<in> set evs1" by blast
      from loop_trace [OF rest] obtain evs2 where
        t2: "trace w' = trace w1 @ evs2" by blast
      from t1 t2 have ne: "newEvents w w' = evs1 @ evs2" "newEvents w w1 = evs1"
        "newEvents w1 w' = evs2"
        by (simp_all add: newEvents_def)
      show ?thesis
      proof (cases "r \<in> set rs")
        case True
        from Cons.IH [OF rest True Cons.prems(3)] ne show ?thesis by auto
      next
        case False
        with Cons.prems(2) have "r = x" by simp
        with Cons.prems(3) \<open>Atoi (ID (ExternalRepoSpec x)) = Inr xid\<close> have "xid = pid" by simp
        note sw = step_written [OF step', unfolded \<open>xid = pid\<close>]
        note lv = loop_visCache [OF rest, of pid]
        note lu = loop_userCache [OF rest, of a pid]
        from sw lv lu ne t1 \<open>xid = pid\<close> show ?thesis by auto
      qed
    qed
  qed
qed

lemma loop_error:
  "fetchAndUpdateCache e p a tok rs perms w = (Inl err, w') \<Longrightarrow>
   (\<exists>r\<in>set rs. \<exists>err0. Atoi (ID (ExternalRepoSpec r)) = Inl err0 \<and> err = parseErr err0) \<or>
   (\<exists>r\<in>set rs. \<exists>pid err0. Atoi (ID (ExternalRepoSpec r)) = Inr pid \<and>
       ((setRepoVisibilityErr e pid = Some err0 \<and> expectedVis e p a tok pid \<noteq> None \<and>
         err = Wrap err0 ''could not set cached repo visibility'') \<or>
        (setUserRepoErr e a pid = Some err0 \<and> expectedUser e p a tok pid \<noteq> None \<and>
         err = Wrap err0 ''could not set cached user repo'')))"
proof (induction rs arbitrary: perms w)
  case Nil
  then show ?case by simp
next
  case (Cons x rs)
  show ?case
  proof (cases "Atoi (ID (ExternalRepoSpec x))")
    case (Inl err0)
    with Cons.prems show ?thesis by auto
  next
    case (Inr xid)
    obtain res1 w1 where step: "fetchAndUpdate e p a tok x xid perms w = (res1, w1)"
      by (cases "fetchAndUpdate e p a tok x xid perms w") auto
    show ?thesis
    proof (cases res1)
      case (Inl err1)
      with Cons.prems Inr step have "fetchAndUpdate e p a tok x xid perms w = (Inl err, w1)"
        by simp
      from step_error [OF this] Inr show ?thesis by auto
    next
      case (Inr perms1)
      with Cons.prems(1) \<open>Atoi (ID (ExternalRepoSpec x)) = Inr xid\<close> step
      have rest: "fetchAndUpdateCache e p a tok rs perms1 w1 = (Inl err, w')" by simp
      from Cons.IH [OF rest] show ?thesis by auto
    qed
  qed
qed

lemma loop_total:
  "\<forall>r\<in>set rs. \<exists>pid. Atoi (ID (ExternalRepoSpec r)) = Inr pid \<and>
      (expectedVis e p a tok pid \<noteq> None \<longrightarrow> setRepoVisibilityErr e pid = None) \<and>
      (expectedUser e p a tok pid \<noteq> None \<longrightarrow> setUserRepoErr e a pid = None) \<Longrightarrow>
   \<exists>perms' w'. fetchAndUpdateCache e p a tok rs perms w = (Inr perms', w')"
proof (induction rs arbitrary: perms w)
  case Nil
  then show ?case by simp
next
  case (Cons x rs)
  from Cons.prems obtain xid where x: "Atoi (ID (ExternalRepoSpec x)) = Inr xid"
    "expectedVis e p a tok xid \<noteq> None \<longrightarrow> setRepoVisibilityErr e xid = None"
    "expectedUser e p a tok xid \<noteq> None \<longrightarrow> setUserRepoErr e a xid = None"
    by auto
  from step_total [OF x(2) x(3)] obtain perms1 w1 where
    "fetchAndUpdate e p a tok x xid perms w = (Inr perms1, w1)" by blast
  moreover from Cons.IH [of perms1 w1] Cons.prems obtain perms' w' where
    "fetchAndUpdateCache e p a tok rs perms1 w1 = (Inr perms', w')" by auto
  ultimately show ?case using x(1) by simp
qed

subsection \<open>The cache loops\<close>

text \<open>
  The visibility loop fails exactly on an identifier that does not parse; otherwise
  it grants read = true to the repositories the visibility cache settles and hands on
  the others. The user-access loop sets read to the cached grant of the repositories
  that have one and hands on the others.
\<close>

lemma checkCachedVisibility_Inr:
  "checkCachedVisibility p a w rs (perms, nxt) = Inr (perms', nxt') \<Longrightarrow>
   (\<forall>r\<in>set rs. \<exists>pid. Atoi (ID (ExternalRepoSpec r)) = Inr pid) \<and>
   nxt' = nxt @ filter (\<lambda>r. \<not> resolvedByVisibility w a r) rs \<and>
   (\<forall>n. perms' n = (if \<exists>r\<in>set rs. RepoName r = n \<and> resolvedByVisibility w a r
                    then Some [Read \<mapsto> True] else perms n))"
proof (induction rs arbitrary: perms nxt)
  case Nil
  then show ?case by simp
next
  case (Cons r rs)
  from Cons.prems obtain pid where pid: "Atoi (ID (ExternalRepoSpec r)) = Inr pid"
    by (cases "Atoi (ID (ExternalRepoSpec r))") auto
  show ?case
  proof (cases "resolvedByVisibility w a r")
    case True
    with pid Cons.prems
    have "checkCachedVisibility p a w rs (perms(RepoName r \<mapsto> [Read \<mapsto> True]), nxt)
            = Inr (perms', nxt')"
      by (auto simp: resolvedByVisibility_def cacheGetRepoVisibility_def
               split: option.splits if_splits)
    from Cons.IH [OF this] True pid show ?thesis by auto
  next
    case False
    with pid Cons.prems
    have "checkCachedVisibility p a w rs (perms, nxt @ [r]) = Inr (perms', nxt')"
      by (auto simp: resolvedByVisibility_def cacheGetRepoVisibility_def
               split: option.splits if_splits)
    from Cons.IH [OF this] False pid show ?thesis by auto
  qed
qed

lemma checkCachedVisibility_Inl:
  "r \<in> set rs \<Longrightarrow> Atoi (ID (ExternalRepoSpec r)) = Inl err \<Longrightarrow>
   \<exists>err'. checkCachedVisibility p a w rs (perms, nxt) = Inl (parseErr err')"
proof (induction rs arbitrary: perms nxt)
  case Nil
  then show ?case by simp
next
  case (Cons x rs)
  show ?case
  proof (cases "Atoi (ID (ExternalRepoSpec x))")
    case (Inl err0)
    then show ?thesis by auto
  next
    case (Inr xid)
    with Cons.prems have "r \<in> set rs" by auto
    from Cons.IH [OF this Cons.prems(2)] Inr show ?thesis
      by (simp split: option.splits)
  qed
qed

lemma checkCachedUserRepos_Inr:
  "checkCachedUserRepos p a w rs (perms, nxt) = Inr (perms', nxt') \<Longrightarrow>
   nxt' = nxt @ filter (\<lambda>r. cachedUserRepo w a r = None) rs \<and>
   (\<forall>n. (\<forall>r\<in>set rs. RepoName r = n \<longrightarrow> cachedUserRepo w a r = None) \<longrightarrow> perms' n = perms n) \<and>
   (\<forall>n. perms n \<noteq> None \<longrightarrow> perms' n \<noteq> None) \<and>
   (\<forall>r\<in>set rs. \<forall>u. cachedUserRepo w a r = Some u \<longrightarrow>
      (\<forall>r'\<in>set rs. RepoName r' = RepoName r \<longrightarrow> r' = r) \<longrightarrow>
      perms' (RepoName r) = Some [Read \<mapsto> ur_Read u])"
proof (induction rs arbitrary: perms nxt)
  case Nil
  then show ?case by simp
next
  case (Cons r rs)
  from Cons.prems obtain pid where pid: "Atoi (ID (ExternalRepoSpec r)) = Inr pid"
    by (cases "Atoi (ID (ExternalRepoSpec r))") auto
  show ?case
  proof (cases "cachedUserRepo w a r")
    case None
    with pid Cons.prems
    have "checkCachedUserRepos p a w rs (perms, nxt @ [r]) = Inr (perms', nxt')"
      by (auto simp: cachedUserRepo_def cacheGetUserRepo_def split: option.splits)
    from Cons.IH [OF this] None show ?thesis by auto
  next
    case (Some u)
    with pid Cons.prems
    have rest: "checkCachedUserRepos p a w rs (perms(RepoName r \<mapsto> [Read \<mapsto> ur_Read u]), nxt)
            = Inr (perms', nxt')"
      by (auto simp: cachedUserRepo_def cacheGetUserRepo_def split: option.splits)
    note IH = Cons.IH [OF rest]
    have a1: "nxt' = nxt @ filter (\<lambda>r. cachedUserRepo w a r = None) (r # rs)"
      using IH Some by simp
    have a2: "\<forall>n. (\<forall>x\<in>set (r # rs). RepoName x = n \<longrightarrow> cachedUserRepo w a x = None)
                 \<longrightarrow> perms' n = perms n"
      using IH Some by auto
    have a3: "\<forall>n. perms n \<noteq> None \<longrightarrow> perms' n \<noteq> None"
      using IH by auto
    have a4: "\<forall>x\<in>set (r # rs). \<forall>v. cachedUserRepo w a x = Some v \<longrightarrow>
      (\<forall>r'\<in>set (r # rs). RepoName r' = RepoName x \<longrightarrow> r' = x) \<longrightarrow>
      perms' (RepoName x) = Some [Read \<mapsto> ur_Read v]"
    proof (intro ballI allI impI)
      fix x v
      assume x: "x \<in> set (r # rs)" "cachedUserRepo w a x = Some v"
        and uniq: "\<forall>r'\<in>set (r # rs). RepoName r' = RepoName x \<longrightarrow> r' = x"
      show "perms' (RepoName x) = Some [Read \<mapsto> ur_Read v]"
      proof (cases "x \<in> set rs")
        case True
        with IH x(2) uniq show ?thesis by auto
      next
        case False
        with x(1) have "x = r" by simp
        with False uniq have "\<forall>y\<in>set rs. RepoName y \<noteq> RepoName r" by auto
        then have "\<forall>y\<in>set rs. RepoName y = RepoName r \<longrightarrow> cachedUserRepo w a y = None"
          by auto
        with IH have "perms' (RepoName r) = (perms(RepoName r \<mapsto> [Read \<mapsto> ur_Read u])) (RepoName r)"
          by blast
        with \<open>x = r\<close> x(2) Some show ?thesis by simp
      qed
    qed
    from a1 a2 a3 a4 show ?thesis by blast
  qed
qed

subsection \<open>From the cache loops to the fetch loop\<close>

lemma checkCaches_Fetch:
  assumes "checkCaches p a repos w = Fetch perms0 remaining"
  shows "remaining \<noteq> [] \<and> set remaining \<subseteq> set (fst (Repos p repos)) \<and>
         (\<forall>r\<in>set remaining. \<exists>pid. Atoi (ID (ExternalRepoSpec r)) = Inr pid)"
proof -
  let ?mine = "fst (Repos p repos)"
  from assms obtain perms1 nxt1 where
    ph1: "checkCachedVisibility p a w ?mine (Map.empty, []) = Inr (perms1, nxt1)"
    by (cases "checkCachedVisibility p a w ?mine (Map.empty, [])")
       (auto simp: checkCaches_def Let_def)
  note f1 = checkCachedVisibility_Inr [OF ph1]
  from assms ph1 have ne: "nxt1 \<noteq> []"
    by (auto simp: checkCaches_def Let_def split: if_splits)
  from f1 have sub: "set nxt1 \<subseteq> set ?mine" by auto
  from assms ph1 ne have "remaining = nxt1 \<or> (a = [] \<and> remaining = ?mine)"
    by (auto simp: checkCaches_def Let_def split: if_splits sum.splits)
  with ne sub f1 show ?thesis by auto
qed

lemma RepoPerms_Fetch:
  "checkCaches p (accountIDOf p account) repos w = Fetch perms0 remaining \<Longrightarrow>
   accessTokenOf e account = Inr tok \<Longrightarrow>
   RepoPerms e p account repos w =
     fetchAndUpdateCache e p (accountIDOf p account) tok remaining perms0 w"
  by (simp add: RepoPerms_def Let_def)

lemma loop_first_fetch:
  assumes "fetchAndUpdateCache e p a tok (r # rs) perms w = (res, w')"
    and "Atoi (ID (ExternalRepoSpec r)) = Inr pid"
  shows "EvFetch tok pid \<in> set (newEvents w w')"
proof -
  obtain res1 w1 where step: "fetchAndUpdate e p a tok r pid perms w = (res1, w1)"
    by (cases "fetchAndUpdate e p a tok r pid perms w") auto
  from step_prefix [OF step] obtain evs1 where
    t1: "trace w1 = trace w @ evs1" "EvFetch tok pid \<in> set evs1" by blast
  show ?thesis
  proof (cases res1)
    case (Inl err)
    with assms step have "w' = w1" by simp
    with t1 show ?thesis by (simp add: newEvents_def)
  next
    case (Inr perms1)
    with assms step have "fetchAndUpdateCache e p a tok rs perms1 w1 = (res, w')" by simp
    from loop_trace [OF this] obtain evs2 where "trace w' = trace w1 @ evs2" by blast
    with t1 show ?thesis by (simp add: newEvents_def)
  qed
qed

text \<open>
  The repositories the fetch loop runs over: every repository of the provider for an
  empty account identifier, and otherwise every repository the visibility loop did not
  settle, whether or not the user-access loop settled it.
\<close>

lemma checkCaches_Fetch_remaining:
  assumes "checkCaches p a repos w = Fetch perms0 remaining"
  shows "remaining = (if a = [] then fst (Repos p repos)
                      else filter (\<lambda>r. \<not> resolvedByVisibility w a r) (fst (Repos p repos)))"
proof -
  let ?mine = "fst (Repos p repos)"
  from assms obtain perms1 nxt1 where
    ph1: "checkCachedVisibility p a w ?mine (Map.empty, []) = Inr (perms1, nxt1)"
    by (cases "checkCachedVisibility p a w ?mine (Map.empty, [])")
       (auto simp: checkCaches_def Let_def)
  from checkCachedVisibility_Inr [OF ph1]
  have nxt: "nxt1 = filter (\<lambda>r. \<not> resolvedByVisibility w a r) ?mine" by simp
  from assms ph1 have "remaining = (if a = [] then ?mine else nxt1)"
    by (auto simp: checkCaches_def Let_def split: if_splits sum.splits)
  with nxt show ?thesis by simp
qed

lemma checkCaches_Fetch_cover:
  assumes "checkCaches p a repos w = Fetch perms0 remaining"
  shows "\<forall>r\<in>set (fst (Repos p repos)). r \<in> set remaining \<or> perms0 (RepoName r) \<noteq> None"
proof -
  let ?mine = "fst (Repos p repos)"
  from assms obtain perms1 nxt1 where
    ph1: "checkCachedVisibility p a w ?mine (Map.empty, []) = Inr (perms1, nxt1)"
    by (cases "checkCachedVisibility p a w ?mine (Map.empty, [])")
       (auto simp: checkCaches_def Let_def)
  note f1 = checkCachedVisibility_Inr [OF ph1]
  from assms ph1 have ne: "nxt1 \<noteq> []"
    by (auto simp: checkCaches_def Let_def split: if_splits)
  show ?thesis
  proof (cases "a = []")
    case True
    with assms ph1 ne have "remaining = ?mine"
      by (auto simp: checkCaches_def Let_def split: if_splits)
    then show ?thesis by simp
  next
    case False
    with assms ph1 ne obtain nxt2 where
      ph2: "checkCachedUserRepos p a w nxt1 (perms1, []) = Inr (perms0, nxt2)"
      and rem: "remaining = nxt1"
      by (cases "checkCachedUserRepos p a w nxt1 (perms1, [])")
         (auto simp: checkCaches_def Let_def split: if_splits)
    note f2 = checkCachedUserRepos_Inr [OF ph2]
    show ?thesis
    proof
      fix r assume r: "r \<in> set ?mine"
      show "r \<in> set remaining \<or> perms0 (RepoName r) \<noteq> None"
      proof (cases "resolvedByVisibility w a r")
        case True
        with f1 r have "perms1 (RepoName r) \<noteq> None" by auto
        with f2 show ?thesis by blast
      next
        case False
        with f1 r rem show ?thesis by simp
      qed
    qed
  qed
qed

lemma unparsable_identifier_is_fatal:
  assumes "r \<in> set repos" "IsHostOf (codeHost p) r" "Atoi (ID (ExternalRepoSpec r)) = Inl err"
  shows "\<exists>err'. RepoPerms e p account repos w = (Inl (parseErr err'), w)"
proof -
  from assms(1,2) have "r \<in> set (fst (Repos p repos))"
    by (simp add: Repos_def GetCodeHostRepos_def)
  from checkCachedVisibility_Inl [OF this assms(3)] obtain err' where
    "checkCachedVisibility p (accountIDOf p account) w (fst (Repos p repos)) (Map.empty, [])
       = Inl (parseErr err')" by blast
  then have "RepoPerms e p account repos w = (Inl (parseErr err'), w)"
    by (simp add: RepoPerms_def checkCaches_def Let_def)
  then show ?thesis by blast
qed

lemma fetch_failure_is_partial:
  assumes reach: "checkCaches p (accountIDOf p account) repos w = Fetch perms0 remaining"
    and tok: "accessTokenOf e account = Inr tok"
    and store: "\<forall>q. setRepoVisibilityErr e q = None" "\<forall>u q. setUserRepoErr e u q = None"
    and r: "r \<in> set remaining" "Atoi (ID (ExternalRepoSpec r)) = Inr projID"
    and fail: "GetProject e tok projID = Inl err" "HTTPErrorCode err \<noteq> StatusNotFound"
  shows "\<exists>perms w'. RepoPerms e p account repos w = (Inr perms, w') \<and>
           (\<forall>r'\<in>set remaining. fetchAccessible e tok r' \<longrightarrow>
              perms (RepoName r') = Some [Read \<mapsto> True]) \<and>
           (\<forall>n. perms0 n \<noteq> None \<longrightarrow> perms n \<noteq> None) \<and>
           ((\<forall>r'\<in>set remaining. RepoName r' = RepoName r \<longrightarrow> r' = r) \<longrightarrow>
              perms (RepoName r) = perms0 (RepoName r))"
proof -
  let ?a = "accountIDOf p account"
  from checkCaches_Fetch [OF reach] store
  have "\<forall>r\<in>set remaining. \<exists>pid. Atoi (ID (ExternalRepoSpec r)) = Inr pid \<and>
      (expectedVis e p ?a tok pid \<noteq> None \<longrightarrow> setRepoVisibilityErr e pid = None) \<and>
      (expectedUser e p ?a tok pid \<noteq> None \<longrightarrow> setUserRepoErr e ?a pid = None)"
    by auto
  from loop_total [OF this] obtain perms w' where
    loop: "fetchAndUpdateCache e p ?a tok remaining perms0 w = (Inr perms, w')" by blast
  with RepoPerms_Fetch [OF reach tok]
  have call: "RepoPerms e p account repos w = (Inr perms, w')" by simp
  have nacc: "\<not> fetchAccessible e tok r" using r(2) fail by (simp add: fetchAccessible_def)
  note lp = loop_perms [OF loop]
  have a1: "\<forall>r'\<in>set remaining. fetchAccessible e tok r' \<longrightarrow>
              perms (RepoName r') = Some [Read \<mapsto> True]"
    using lp by auto
  have a2: "\<forall>n. perms0 n \<noteq> None \<longrightarrow> perms n \<noteq> None"
    using lp by auto
  have a3: "(\<forall>r'\<in>set remaining. RepoName r' = RepoName r \<longrightarrow> r' = r) \<longrightarrow>
              perms (RepoName r) = perms0 (RepoName r)"
  proof
    assume "\<forall>r'\<in>set remaining. RepoName r' = RepoName r \<longrightarrow> r' = r"
    with nacc have "\<not> (\<exists>r'\<in>set remaining. RepoName r' = RepoName r \<and> fetchAccessible e tok r')"
      by blast
    with lp [of "RepoName r"] show "perms (RepoName r) = perms0 (RepoName r)" by simp
  qed
  from call a1 a2 a3 show ?thesis by blast
qed

lemma checkCaches_single:
  assumes "IsHostOf (codeHost p) r" "Atoi (ID (ExternalRepoSpec r)) = Inr pid"
  shows "checkCaches p a [r] w =
     (if resolvedByVisibility w a r then Return (Inr [RepoName r \<mapsto> [Read \<mapsto> True]])
      else if a \<noteq> [] then
        (case userCache w (a, pid) of
           Some u \<Rightarrow> Return (Inr [RepoName r \<mapsto> [Read \<mapsto> ur_Read u]])
         | None \<Rightarrow> Fetch Map.empty [r])
      else Fetch Map.empty [r])"
  using assms
  by (auto simp: checkCaches_def Repos_def GetCodeHostRepos_def Let_def resolvedByVisibility_def
        cacheGetRepoVisibility_def cacheGetUserRepo_def split: option.splits)

lemma checkCaches_single_foreign:
  "\<not> IsHostOf (codeHost p) r \<Longrightarrow> checkCaches p a [r] w = Return (Inr Map.empty)"
  by (simp add: checkCaches_def Repos_def GetCodeHostRepos_def Let_def)

lemma visibility_constants_distinct:
  "Public \<noteq> Internal" "Public \<noteq> Private" "Internal \<noteq> Private"
  by (simp_all add: Public_def Internal_def Private_def)

lemma checkCachedVisibility_total:
  "\<forall>r\<in>set rs. \<exists>pid. Atoi (ID (ExternalRepoSpec r)) = Inr pid \<Longrightarrow>
   \<exists>perms' nxt'. checkCachedVisibility p a w rs (perms, nxt) = Inr (perms', nxt')"
proof (induction rs arbitrary: perms nxt)
  case Nil
  then show ?case by simp
next
  case (Cons r rs)
  then obtain pid where "Atoi (ID (ExternalRepoSpec r)) = Inr pid" by auto
  with Cons show ?case by (auto split: option.splits)
qed

lemma checkCachedUserRepos_total:
  "\<forall>r\<in>set rs. \<exists>pid. Atoi (ID (ExternalRepoSpec r)) = Inr pid \<Longrightarrow>
   \<exists>perms' nxt'. checkCachedUserRepos p a w rs (perms, nxt) = Inr (perms', nxt')"
proof (induction rs arbitrary: perms nxt)
  case Nil
  then show ?case by simp
next
  case (Cons r rs)
  then obtain pid where "Atoi (ID (ExternalRepoSpec r)) = Inr pid" by auto
  with Cons show ?case by (auto split: option.splits)
qed

text \<open>
  A repository of the provider that neither cache settles is one the fetch loop runs
  over, in a batch whose identifiers parse, and it has no entry when the loop starts
  if no other repository of the batch bears its name.
\<close>

lemma unresolved_reaches_fetch_loop:
  assumes parse: "\<forall>r'\<in>set repos. IsHostOf (codeHost p) r' \<longrightarrow>
                    (\<exists>pid. Atoi (ID (ExternalRepoSpec r')) = Inr pid)"
    and r: "r \<in> set repos" "IsHostOf (codeHost p) r"
    and vis: "\<not> resolvedByVisibility w a r"
    and usr: "a \<noteq> [] \<longrightarrow> cachedUserRepo w a r = None"
  shows "\<exists>perms0 remaining. checkCaches p a repos w = Fetch perms0 remaining \<and>
           r \<in> set remaining \<and>
           ((\<forall>r'\<in>set repos. RepoName r' = RepoName r \<longrightarrow> r' = r) \<longrightarrow>
              perms0 (RepoName r) = None)"
proof -
  let ?mine = "fst (Repos p repos)"
  have mine: "set ?mine = {r' \<in> set repos. IsHostOf (codeHost p) r'}"
    by (auto simp: Repos_def GetCodeHostRepos_def)
  with parse have p1: "\<forall>r'\<in>set ?mine. \<exists>pid. Atoi (ID (ExternalRepoSpec r')) = Inr pid" by auto
  from checkCachedVisibility_total [OF p1] obtain perms1 nxt1 where
    ph1: "checkCachedVisibility p a w ?mine (Map.empty, []) = Inr (perms1, nxt1)" by blast
  note f1 = checkCachedVisibility_Inr [OF ph1]
  from f1 r vis mine have in1: "r \<in> set nxt1" by simp
  then have ne1: "length nxt1 \<noteq> 0" by auto
  have none1: "(\<forall>r'\<in>set repos. RepoName r' = RepoName r \<longrightarrow> r' = r) \<longrightarrow>
                 perms1 (RepoName r) = None"
  proof
    assume "\<forall>r'\<in>set repos. RepoName r' = RepoName r \<longrightarrow> r' = r"
    with mine vis have "\<not> (\<exists>r'\<in>set ?mine. RepoName r' = RepoName r \<and> resolvedByVisibility w a r')"
      by auto
    with f1 show "perms1 (RepoName r) = None" by simp
  qed
  show ?thesis
  proof (cases "a = []")
    case True
    with ph1 ne1 have "checkCaches p a repos w = Fetch perms1 ?mine"
      by (simp add: checkCaches_def Let_def)
    with r mine none1 show ?thesis by auto
  next
    case False
    from f1 p1 have "\<forall>r'\<in>set nxt1. \<exists>pid. Atoi (ID (ExternalRepoSpec r')) = Inr pid" by auto
    from checkCachedUserRepos_total [OF this] obtain perms2 nxt2 where
      ph2: "checkCachedUserRepos p a w nxt1 (perms1, []) = Inr (perms2, nxt2)" by blast
    note f2 = checkCachedUserRepos_Inr [OF ph2]
    from f2 in1 usr False have "r \<in> set nxt2" by simp
    then have ne2: "length nxt2 \<noteq> 0" by auto
    from ph1 ne1 ph2 ne2 False have flow: "checkCaches p a repos w = Fetch perms2 nxt1"
      by (simp add: checkCaches_def Let_def)
    have "(\<forall>r'\<in>set repos. RepoName r' = RepoName r \<longrightarrow> r' = r) \<longrightarrow> perms2 (RepoName r) = None"
    proof
      assume u: "\<forall>r'\<in>set repos. RepoName r' = RepoName r \<longrightarrow> r' = r"
      from f1 mine have "set nxt1 \<subseteq> set repos" by auto
      with u usr False
      have "\<forall>r'\<in>set nxt1. RepoName r' = RepoName r \<longrightarrow> cachedUserRepo w a r' = None" by auto
      with f2 have "perms2 (RepoName r) = perms1 (RepoName r)" by blast
      with none1 u show "perms2 (RepoName r) = None" by simp
    qed
    with flow in1 show ?thesis by blast
  qed
qed

text \<open>
  The fetch loop also runs over repositories the cache loops have settled: for an empty
  account identifier over every repository of the provider, for a non-empty one over
  the repositories the user-access loop has settled, whose entry a fetch that returns
  accessible replaces by read = true.
\<close>

lemma anonymous_fetches_whole_batch:
  assumes reach: "checkCaches p (accountIDOf p account) repos w = Fetch perms0 remaining"
    and anon: "accountIDOf p account = []"
    and tok: "accessTokenOf e account = Inr tok"
    and call: "RepoPerms e p account repos w = (Inr perms, w')"
    and r: "r \<in> set repos" "IsHostOf (codeHost p) r" "Atoi (ID (ExternalRepoSpec r)) = Inr pid"
  shows "EvFetch tok pid \<in> set (newEvents w w')"
proof -
  from checkCaches_Fetch_remaining [OF reach] anon have "remaining = fst (Repos p repos)"
    by simp
  with r(1,2) have mem: "r \<in> set remaining" by (simp add: Repos_def GetCodeHostRepos_def)
  from RepoPerms_Fetch [OF reach tok] call
  have "fetchAndUpdateCache e p (accountIDOf p account) tok remaining perms0 w = (Inr perms, w')"
    by simp
  from loop_written [OF this mem r(3)] show ?thesis by simp
qed

lemma authenticated_fetches_cached_grants:
  assumes reach: "checkCaches p (accountIDOf p account) repos w = Fetch perms0 remaining"
    and auth: "accountIDOf p account \<noteq> []"
    and tok: "accessTokenOf e account = Inr tok"
    and call: "RepoPerms e p account repos w = (Inr perms, w')"
    and r: "r \<in> set repos" "IsHostOf (codeHost p) r" "Atoi (ID (ExternalRepoSpec r)) = Inr pid"
    and vis: "\<not> resolvedByVisibility w (accountIDOf p account) r"
    and cached: "cachedUserRepo w (accountIDOf p account) r = Some u"
  shows "EvFetch tok pid \<in> set (newEvents w w') \<and>
         (fetchAccessible e tok r \<longrightarrow> perms (RepoName r) = Some [Read \<mapsto> True])"
proof -
  from checkCaches_Fetch_remaining [OF reach] auth r(1,2) vis
  have mem: "r \<in> set remaining" by (simp add: Repos_def GetCodeHostRepos_def)
  from RepoPerms_Fetch [OF reach tok] call
  have loop: "fetchAndUpdateCache e p (accountIDOf p account) tok remaining perms0 w
                = (Inr perms, w')"
    by simp
  from loop_written [OF loop mem r(3)] loop_perms [OF loop, of "RepoName r"] mem
  show ?thesis by auto
qed

text \<open>
  A call looks at the repositories of the provider's code host only (line 91).
\<close>

lemma Repos_idem: "fst (Repos p (fst (Repos p repos))) = fst (Repos p repos)"
  by (simp add: Repos_def GetCodeHostRepos_def)

lemma RepoPerms_own_repositories:
  "RepoPerms e p account repos w = RepoPerms e p account (fst (Repos p repos)) w"
  by (simp add: RepoPerms_def checkCaches_def Repos_idem)

subsection \<open>Evaluation of the example inputs\<close>

lemmas example_defs = gitlabHost_def gitlabProvider_def gitlabRepo_def user1_def
  otherHostUser_def noIdentifierUser_def undecodableUser_def remoteProjects_def
  decodeAccountData_def exampleEnv_def brokenStoreEnv_def emptyWorld_def
  publicCachedWorld_def deniedCachedWorld_def
  githubRepo_def grantedCachedWorld_def

lemmas eval_defs = RepoPerms_def checkCaches_def Repos_def GetCodeHostRepos_def IsHostOf_def
  accountIDOf_def accessTokenOf_def ServiceID_def ServiceType_def Atoi_def
  cacheGetRepoVisibility_def cacheGetUserRepo_def cacheSetRepoVisibility_def
  cacheSetUserRepo_def fetchProjVis_def fetchAndUpdate_def StatusNotFound_def
  Public_def Private_def Internal_def parseErr_def newEvents_def Let_def

subsection \<open>Anonymous accounts\<close>

text \<open>
  C1, where the code departs from the claim: an account that is anonymous for the
  provider (its service identity is that of another host, or its identifier is empty)
  is granted read = true on a private repository. The account identifier is empty, as
  line 84 has it for an unauthenticated caller, but the access token of the account is
  decoded and used for the fetch all the same (lines 142 to 148), the remote host
  answers for the holder of the token, and lines 159 to 175 grant read = true, classify
  the project as private and store a grant under the empty account identifier. A nil
  account, fetched with the empty token, gets no entry for the same repository.
\<close>

theorem anonymous_account_granted_private_repository:
  "accountIDOf gitlabProvider (Some otherHostUser) = [] \<and>
   accountIDOf gitlabProvider (Some noIdentifierUser) = [] \<and>
   GetProject exampleEnv ''tok1'' 1 = Inr \<lparr>proj_Visibility = Private\<rparr> \<and>
   RepoPerms exampleEnv gitlabProvider (Some otherHostUser) [gitlabRepo ''C'' ''1''] emptyWorld
     = (Inr [''C'' \<mapsto> [Read \<mapsto> True]],
        \<lparr>visCache = [1 \<mapsto> \<lparr>rv_Visibility = Private, rv_TTL = 3600\<rparr>],
         userCache = [([], 1) \<mapsto> \<lparr>ur_Read = True, ur_TTL = 3600\<rparr>],
         trace = [EvFetch ''tok1'' 1,
                  EvSetRepoVisibility 1 \<lparr>rv_Visibility = Private, rv_TTL = 3600\<rparr>,
                  EvSetUserRepo [] 1 \<lparr>ur_Read = True, ur_TTL = 3600\<rparr>]\<rparr>) \<and>
   fst (RepoPerms exampleEnv gitlabProvider (Some noIdentifierUser) [gitlabRepo ''C'' ''1''] emptyWorld)
     = Inr [''C'' \<mapsto> [Read \<mapsto> True]] \<and>
   fst (RepoPerms exampleEnv gitlabProvider None [gitlabRepo ''C'' ''1''] emptyWorld)
     = Inr Map.empty"
  by (simp add: example_defs eval_defs)

subsection \<open>A second call for the same account and repository\<close>

text \<open>
  C2 as stated fails: for an authenticated account and a repository the remote host
  reports as not found, the first call returns a map without an entry for the
  repository and writes the visibility entry "private" and the user-access entry
  "read = false"; the second call answers from the user-access cache with an entry
  read = false. The two results differ for that repository.
\<close>

theorem second_call_differs_counterexample:
  "RepoPerms exampleEnv gitlabProvider (Some user1) [gitlabRepo ''D'' ''2''] emptyWorld
     = (Inr Map.empty,
        \<lparr>visCache = [2 \<mapsto> \<lparr>rv_Visibility = Private, rv_TTL = 3600\<rparr>],
         userCache = [(''user1'', 2) \<mapsto> \<lparr>ur_Read = False, ur_TTL = 3600\<rparr>],
         trace = [EvFetch ''tok1'' 2,
                  EvSetRepoVisibility 2 \<lparr>rv_Visibility = Private, rv_TTL = 3600\<rparr>,
                  EvSetUserRepo ''user1'' 2 \<lparr>ur_Read = False, ur_TTL = 3600\<rparr>]\<rparr>) \<and>
   fst (RepoPerms exampleEnv gitlabProvider (Some user1) [gitlabRepo ''D'' ''2'']
          (snd (RepoPerms exampleEnv gitlabProvider (Some user1) [gitlabRepo ''D'' ''2''] emptyWorld)))
     = Inr [''D'' \<mapsto> [Read \<mapsto> False]] \<and>
   (case fst (RepoPerms exampleEnv gitlabProvider (Some user1) [gitlabRepo ''D'' ''2''] emptyWorld) of
      Inl err \<Rightarrow> None | Inr perms \<Rightarrow> perms ''D'')
   \<noteq> (case fst (RepoPerms exampleEnv gitlabProvider (Some user1) [gitlabRepo ''D'' ''2'']
          (snd (RepoPerms exampleEnv gitlabProvider (Some user1) [gitlabRepo ''D'' ''2''] emptyWorld))) of
      Inl err \<Rightarrow> None | Inr perms \<Rightarrow> perms ''D'')"
  by (simp add: example_defs eval_defs)

text \<open>
  C2, amended: let a first call reach the fetch loop with the repository among those
  the loop runs over, and return a map. If the fetch of the repository returned
  accessible with visibility public, or with visibility internal or private for an
  authenticated account, the first call returned read = true for the repository, and a
  second call with the same account for that repository, on the cache the first call
  left, returns before the fetch loop with read = true for the repository and an
  unchanged world (no remote fetch, no cache write). If the fetch returned not found
  for an authenticated account, the second call returns before the fetch loop, with
  an unchanged world, the map that has read = false for the repository, whereas the
  first call returned no entry for the repository if the repository had no entry when
  the loop started and no other repository of the loop bears its name.
\<close>

theorem second_call_answers_from_cache:
  assumes reach: "checkCaches p (accountIDOf p account) repos w = Fetch perms0 remaining"
    and tok: "accessTokenOf e account = Inr tok"
    and r: "r \<in> set remaining" "Atoi (ID (ExternalRepoSpec r)) = Inr projID"
    and first: "RepoPerms e p account repos w = (Inr perms1, w1)"
  shows "(\<forall>proj. GetProject e tok projID = Inr proj \<and>
            (proj_Visibility proj = Public \<or>
             accountIDOf p account \<noteq> [] \<and>
             (proj_Visibility proj = Internal \<or> proj_Visibility proj = Private)) \<longrightarrow>
            perms1 (RepoName r) = Some [Read \<mapsto> True] \<and>
            checkCaches p (accountIDOf p account) [r] w1
              = Return (Inr [RepoName r \<mapsto> [Read \<mapsto> True]]) \<and>
            RepoPerms e p account [r] w1 = (Inr [RepoName r \<mapsto> [Read \<mapsto> True]], w1)) \<and>
         (\<forall>err. GetProject e tok projID = Inl err \<and> HTTPErrorCode err = StatusNotFound \<and>
            accountIDOf p account \<noteq> [] \<longrightarrow>
            (perms0 (RepoName r) = None \<and>
             (\<forall>r'\<in>set remaining. RepoName r' = RepoName r \<longrightarrow> r' = r) \<longrightarrow>
             perms1 (RepoName r) = None) \<and>
            checkCaches p (accountIDOf p account) [r] w1
              = Return (Inr [RepoName r \<mapsto> [Read \<mapsto> False]]) \<and>
            RepoPerms e p account [r] w1 = (Inr [RepoName r \<mapsto> [Read \<mapsto> False]], w1))"
proof -
  let ?a = "accountIDOf p account"
  from checkCaches_Fetch [OF reach] r(1) have "r \<in> set (fst (Repos p repos))" by blast
  then have host: "IsHostOf (codeHost p) r" by (simp add: Repos_def GetCodeHostRepos_def)
  note single = checkCaches_single [OF host r(2)]
  from RepoPerms_Fetch [OF reach tok] first
  have loop: "fetchAndUpdateCache e p ?a tok remaining perms0 w = (Inr perms1, w1)" by simp
  note lw = loop_written [OF loop r]
  note lp = loop_perms [OF loop, of "RepoName r"]
  have ret: "\<And>res. checkCaches p ?a [r] w1 = Return res \<Longrightarrow>
               RepoPerms e p account [r] w1 = (res, w1)"
    by (simp add: RepoPerms_def Let_def)
  have part1: "\<forall>proj. GetProject e tok projID = Inr proj \<and>
            (proj_Visibility proj = Public \<or>
             ?a \<noteq> [] \<and> (proj_Visibility proj = Internal \<or> proj_Visibility proj = Private)) \<longrightarrow>
            perms1 (RepoName r) = Some [Read \<mapsto> True] \<and>
            checkCaches p ?a [r] w1 = Return (Inr [RepoName r \<mapsto> [Read \<mapsto> True]]) \<and>
            RepoPerms e p account [r] w1 = (Inr [RepoName r \<mapsto> [Read \<mapsto> True]], w1)"
  proof (intro allI impI)
    fix proj
    assume h: "GetProject e tok projID = Inr proj \<and>
            (proj_Visibility proj = Public \<or>
             ?a \<noteq> [] \<and> (proj_Visibility proj = Internal \<or> proj_Visibility proj = Private))"
    then have acc: "GetProject e tok projID = Inr proj" by simp
    then have "fetchAccessible e tok r" using r(2) by (simp add: fetchAccessible_def)
    with lp r(1) have p1: "perms1 (RepoName r) = Some [Read \<mapsto> True]" by auto
    from lw acc have vis: "visCache w1 projID
        = Some \<lparr>rv_Visibility = proj_Visibility proj, rv_TTL = cacheTTL p\<rparr>"
      by (simp add: expectedVis_def)
    from lw acc have usr: "proj_Visibility proj = Private \<Longrightarrow>
        userCache w1 (?a, projID) = Some \<lparr>ur_Read = True, ur_TTL = cacheTTL p\<rparr>"
      by (simp add: expectedUser_def)
    have "checkCaches p ?a [r] w1 = Return (Inr [RepoName r \<mapsto> [Read \<mapsto> True]])"
    proof (cases "proj_Visibility proj = Public \<or> (proj_Visibility proj = Internal \<and> ?a \<noteq> [])")
      case True
      with vis r(2) have "resolvedByVisibility w1 ?a r"
        by (simp add: resolvedByVisibility_def)
      with single [of ?a w1] show ?thesis by simp
    next
      case False
      with h have priv: "proj_Visibility proj = Private" and auth: "?a \<noteq> []" by auto
      with vis r(2) have "\<not> resolvedByVisibility w1 ?a r"
        by (simp add: resolvedByVisibility_def visibility_constants_distinct [symmetric])
      with single [of ?a w1] usr [OF priv] auth show ?thesis by simp
    qed
    with ret p1 show "perms1 (RepoName r) = Some [Read \<mapsto> True] \<and>
            checkCaches p ?a [r] w1 = Return (Inr [RepoName r \<mapsto> [Read \<mapsto> True]]) \<and>
            RepoPerms e p account [r] w1 = (Inr [RepoName r \<mapsto> [Read \<mapsto> True]], w1)" by simp
  qed
  have part2: "\<forall>err. GetProject e tok projID = Inl err \<and> HTTPErrorCode err = StatusNotFound \<and>
            ?a \<noteq> [] \<longrightarrow>
            (perms0 (RepoName r) = None \<and>
             (\<forall>r'\<in>set remaining. RepoName r' = RepoName r \<longrightarrow> r' = r) \<longrightarrow>
             perms1 (RepoName r) = None) \<and>
            checkCaches p ?a [r] w1 = Return (Inr [RepoName r \<mapsto> [Read \<mapsto> False]]) \<and>
            RepoPerms e p account [r] w1 = (Inr [RepoName r \<mapsto> [Read \<mapsto> False]], w1)"
  proof (intro allI impI)
    fix err
    assume h: "GetProject e tok projID = Inl err \<and> HTTPErrorCode err = StatusNotFound \<and> ?a \<noteq> []"
    then have nacc: "\<not> fetchAccessible e tok r" using r(2) by (simp add: fetchAccessible_def)
    have p1: "perms0 (RepoName r) = None \<and>
             (\<forall>r'\<in>set remaining. RepoName r' = RepoName r \<longrightarrow> r' = r) \<longrightarrow>
             perms1 (RepoName r) = None"
    proof
      assume u: "perms0 (RepoName r) = None \<and>
             (\<forall>r'\<in>set remaining. RepoName r' = RepoName r \<longrightarrow> r' = r)"
      with nacc have "\<not> (\<exists>r'\<in>set remaining. RepoName r' = RepoName r \<and> fetchAccessible e tok r')"
        by blast
      with lp u show "perms1 (RepoName r) = None" by simp
    qed
    from lw h have vis: "visCache w1 projID
        = Some \<lparr>rv_Visibility = Private, rv_TTL = cacheTTL p\<rparr>"
      by (simp add: expectedVis_def)
    from lw h have usr: "userCache w1 (?a, projID) = Some \<lparr>ur_Read = False, ur_TTL = cacheTTL p\<rparr>"
      by (simp add: expectedUser_def)
    from vis r(2) have "\<not> resolvedByVisibility w1 ?a r"
      by (simp add: resolvedByVisibility_def visibility_constants_distinct [symmetric])
    with single [of ?a w1] usr h
    have "checkCaches p ?a [r] w1 = Return (Inr [RepoName r \<mapsto> [Read \<mapsto> False]])" by simp
    with ret p1 show "(perms0 (RepoName r) = None \<and>
             (\<forall>r'\<in>set remaining. RepoName r' = RepoName r \<longrightarrow> r' = r) \<longrightarrow>
             perms1 (RepoName r) = None) \<and>
            checkCaches p ?a [r] w1 = Return (Inr [RepoName r \<mapsto> [Read \<mapsto> False]]) \<and>
            RepoPerms e p account [r] w1 = (Inr [RepoName r \<mapsto> [Read \<mapsto> False]], w1)" by simp
  qed
  from part1 part2 show ?thesis by blast
qed

theorem second_call_answers_from_cache_witness:
  "fst (RepoPerms exampleEnv gitlabProvider (Some user1)
          [gitlabRepo ''C'' ''1'', gitlabRepo ''D'' ''2''] emptyWorld)
     = Inr [''C'' \<mapsto> [Read \<mapsto> True]] \<and>
   RepoPerms exampleEnv gitlabProvider (Some user1) [gitlabRepo ''C'' ''1'']
       (snd (RepoPerms exampleEnv gitlabProvider (Some user1)
               [gitlabRepo ''C'' ''1'', gitlabRepo ''D'' ''2''] emptyWorld))
     = (Inr [''C'' \<mapsto> [Read \<mapsto> True]],
        snd (RepoPerms exampleEnv gitlabProvider (Some user1)
               [gitlabRepo ''C'' ''1'', gitlabRepo ''D'' ''2''] emptyWorld)) \<and>
   RepoPerms exampleEnv gitlabProvider (Some user1) [gitlabRepo ''D'' ''2'']
       (snd (RepoPerms exampleEnv gitlabProvider (Some user1)
               [gitlabRepo ''C'' ''1'', gitlabRepo ''D'' ''2''] emptyWorld))
     = (Inr [''D'' \<mapsto> [Read \<mapsto> False]],
        snd (RepoPerms exampleEnv gitlabProvider (Some user1)
               [gitlabRepo ''C'' ''1'', gitlabRepo ''D'' ''2''] emptyWorld))"
proof -
  let ?C = "gitlabRepo ''C'' ''1''" and ?D = "gitlabRepo ''D'' ''2''"
  let ?call = "RepoPerms exampleEnv gitlabProvider (Some user1) [?C, ?D] emptyWorld"
  have reach: "checkCaches gitlabProvider (accountIDOf gitlabProvider (Some user1)) [?C, ?D]
                 emptyWorld = Fetch Map.empty [?C, ?D]"
    by (simp add: example_defs eval_defs)
  have tok: "accessTokenOf exampleEnv (Some user1) = Inr ''tok1''"
    by (simp add: example_defs eval_defs)
  have memC: "?C \<in> set [?C, ?D]" and memD: "?D \<in> set [?C, ?D]" by simp_all
  have atoiC: "Atoi (ID (ExternalRepoSpec ?C)) = Inr 1"
    and atoiD: "Atoi (ID (ExternalRepoSpec ?D)) = Inr 2"
    by (simp_all add: example_defs eval_defs)
  have res: "fst ?call = Inr [''C'' \<mapsto> [Read \<mapsto> True]]"
    by (simp add: example_defs eval_defs)
  then have first: "?call = (Inr [''C'' \<mapsto> [Read \<mapsto> True]], snd ?call)"
    by (simp add: prod_eq_iff)
  have hC: "GetProject exampleEnv ''tok1'' 1 = Inr \<lparr>proj_Visibility = Private\<rparr> \<and>
            (proj_Visibility \<lparr>proj_Visibility = Private\<rparr> = Public \<or>
             accountIDOf gitlabProvider (Some user1) \<noteq> [] \<and>
             (proj_Visibility \<lparr>proj_Visibility = Private\<rparr> = Internal \<or>
              proj_Visibility \<lparr>proj_Visibility = Private\<rparr> = Private))"
    by (simp add: example_defs eval_defs)
  have hD: "GetProject exampleEnv ''tok1'' 2 = Inl (HTTPError 404) \<and>
            HTTPErrorCode (HTTPError 404) = StatusNotFound \<and>
            accountIDOf gitlabProvider (Some user1) \<noteq> []"
    by (simp add: example_defs eval_defs)
  have nm: "RepoName ?C = ''C''" "RepoName ?D = ''D''" by (simp_all add: example_defs)
  from second_call_answers_from_cache [OF reach tok memC atoiC first] hC
  have c: "RepoPerms exampleEnv gitlabProvider (Some user1) [?C] (snd ?call)
             = (Inr [RepoName ?C \<mapsto> [Read \<mapsto> True]], snd ?call)" by blast
  from second_call_answers_from_cache [OF reach tok memD atoiD first] hD
  have d: "RepoPerms exampleEnv gitlabProvider (Some user1) [?D] (snd ?call)
             = (Inr [RepoName ?D \<mapsto> [Read \<mapsto> False]], snd ?call)" by blast
  from c d res nm show ?thesis by simp
qed

subsection \<open>The fetch loop: an accessible repository\<close>

text \<open>
  C3: in a call that reaches the fetch loop, for a repository of the loop whose fetch
  returns accessible with visibility \<open>V\<close>: a call that returns a map has an entry with
  read = true for the repository, has called the visibility write with \<open>(V, cacheTTL)\<close>
  and left that entry in the visibility cache, and, if \<open>V\<close> is private, has called the
  user-access write with \<open>(accountID, projID, read = true, cacheTTL)\<close> and left that
  entry in the user-access cache; if \<open>V\<close> is not private, the call makes no user-access
  write for the project at all, whatever it returns; and if the store fails on the
  visibility write of the project, the call returns a wrapped error and no map, the
  iteration for the repository returning the store's error wrapped with
  "could not set cached repo visibility".
\<close>

theorem fetch_accessible_sets_read_and_caches:
  assumes reach: "checkCaches p (accountIDOf p account) repos w = Fetch perms0 remaining"
    and tok: "accessTokenOf e account = Inr tok"
    and r: "r \<in> set remaining" "Atoi (ID (ExternalRepoSpec r)) = Inr projID"
    and acc: "GetProject e tok projID = Inr proj"
    and call: "RepoPerms e p account repos w = (res, w')"
  shows "(\<forall>perms. res = Inr perms \<longrightarrow>
            perms (RepoName r) = Some [Read \<mapsto> True] \<and>
            EvSetRepoVisibility projID
              \<lparr>rv_Visibility = proj_Visibility proj, rv_TTL = cacheTTL p\<rparr> \<in> set (newEvents w w') \<and>
            visCache w' projID =
              Some \<lparr>rv_Visibility = proj_Visibility proj, rv_TTL = cacheTTL p\<rparr> \<and>
            (proj_Visibility proj = Private \<longrightarrow>
               EvSetUserRepo (accountIDOf p account) projID
                 \<lparr>ur_Read = True, ur_TTL = cacheTTL p\<rparr> \<in> set (newEvents w w') \<and>
               userCache w' (accountIDOf p account, projID) =
                 Some \<lparr>ur_Read = True, ur_TTL = cacheTTL p\<rparr>)) \<and>
         (proj_Visibility proj \<noteq> Private \<longrightarrow>
            (\<forall>u v. EvSetUserRepo u projID v \<notin> set (newEvents w w')) \<and>
            (\<forall>u. userCache w' (u, projID) = userCache w (u, projID))) \<and>
         (\<forall>err0. setRepoVisibilityErr e projID = Some err0 \<longrightarrow>
            (\<exists>err1 msg. res = Inl (Wrap err1 msg)) \<and>
            (\<forall>perms1 w1. fst (fetchAndUpdate e p (accountIDOf p account) tok r projID perms1 w1)
               = Inl (Wrap err0 ''could not set cached repo visibility'')))"
proof -
  let ?a = "accountIDOf p account"
  from RepoPerms_Fetch [OF reach tok] call
  have loop: "fetchAndUpdateCache e p ?a tok remaining perms0 w = (res, w')" by simp
  have ev: "expectedVis e p ?a tok projID =
              Some \<lparr>rv_Visibility = proj_Visibility proj, rv_TTL = cacheTTL p\<rparr>"
    using acc by (simp add: expectedVis_def)
  have eu: "expectedUser e p ?a tok projID =
              (if proj_Visibility proj = Private
               then Some \<lparr>ur_Read = True, ur_TTL = cacheTTL p\<rparr> else None)"
    using acc by (simp add: expectedUser_def)
  from loop_trace [OF loop] obtain evs where
    evs: "trace w' = trace w @ evs" "\<forall>ev\<in>set evs. expectedEvent e p ?a tok ev" by blast
  then have ne: "newEvents w w' = evs" by (simp add: newEvents_def)
  have part1: "\<forall>perms. res = Inr perms \<longrightarrow>
            perms (RepoName r) = Some [Read \<mapsto> True] \<and>
            EvSetRepoVisibility projID
              \<lparr>rv_Visibility = proj_Visibility proj, rv_TTL = cacheTTL p\<rparr> \<in> set (newEvents w w') \<and>
            visCache w' projID =
              Some \<lparr>rv_Visibility = proj_Visibility proj, rv_TTL = cacheTTL p\<rparr> \<and>
            (proj_Visibility proj = Private \<longrightarrow>
               EvSetUserRepo ?a projID
                 \<lparr>ur_Read = True, ur_TTL = cacheTTL p\<rparr> \<in> set (newEvents w w') \<and>
               userCache w' (?a, projID) =
                 Some \<lparr>ur_Read = True, ur_TTL = cacheTTL p\<rparr>)"
  proof (intro allI impI)
    fix perms assume "res = Inr perms"
    with loop have ok: "fetchAndUpdateCache e p ?a tok remaining perms0 w = (Inr perms, w')"
      by simp
    have "fetchAccessible e tok r" using r(2) acc by (simp add: fetchAccessible_def)
    with loop_perms [OF ok, of "RepoName r"] r(1)
    have "perms (RepoName r) = Some [Read \<mapsto> True]" by auto
    with loop_written [OF ok r] ev eu
    show "perms (RepoName r) = Some [Read \<mapsto> True] \<and>
            EvSetRepoVisibility projID
              \<lparr>rv_Visibility = proj_Visibility proj, rv_TTL = cacheTTL p\<rparr> \<in> set (newEvents w w') \<and>
            visCache w' projID =
              Some \<lparr>rv_Visibility = proj_Visibility proj, rv_TTL = cacheTTL p\<rparr> \<and>
            (proj_Visibility proj = Private \<longrightarrow>
               EvSetUserRepo ?a projID
                 \<lparr>ur_Read = True, ur_TTL = cacheTTL p\<rparr> \<in> set (newEvents w w') \<and>
               userCache w' (?a, projID) =
                 Some \<lparr>ur_Read = True, ur_TTL = cacheTTL p\<rparr>)"
      by simp
  qed
  have part2: "proj_Visibility proj \<noteq> Private \<longrightarrow>
            (\<forall>u v. EvSetUserRepo u projID v \<notin> set (newEvents w w')) \<and>
            (\<forall>u. userCache w' (u, projID) = userCache w (u, projID))"
  proof (intro impI conjI allI)
    assume np: "proj_Visibility proj \<noteq> Private"
    with eu have none: "expectedUser e p ?a tok projID = None" by simp
    { fix u v
      show "EvSetUserRepo u projID v \<notin> set (newEvents w w')"
      proof
        assume "EvSetUserRepo u projID v \<in> set (newEvents w w')"
        with ne evs(2) have "expectedEvent e p ?a tok (EvSetUserRepo u projID v)" by blast
        with none show False by simp
      qed }
    { fix u
      from loop_userCache [OF loop, of u projID] none
      show "userCache w' (u, projID) = userCache w (u, projID)" by auto }
  qed
  have part3: "\<forall>err0. setRepoVisibilityErr e projID = Some err0 \<longrightarrow>
            (\<exists>err1 msg. res = Inl (Wrap err1 msg)) \<and>
            (\<forall>perms1 w1. fst (fetchAndUpdate e p ?a tok r projID perms1 w1)
               = Inl (Wrap err0 ''could not set cached repo visibility''))"
  proof (intro allI impI conjI)
    fix err0 assume fail: "setRepoVisibilityErr e projID = Some err0"
    show "\<exists>err1 msg. res = Inl (Wrap err1 msg)"
    proof (cases res)
      case (Inl err)
      with loop have "fetchAndUpdateCache e p ?a tok remaining perms0 w = (Inl err, w')" by simp
      from loop_error [OF this] Inl show ?thesis by (auto simp: parseErr_def)
    next
      case (Inr perms)
      with loop have "fetchAndUpdateCache e p ?a tok remaining perms0 w = (Inr perms, w')"
        by simp
      from loop_written [OF this r] ev fail show ?thesis by simp
    qed
    fix perms1 w1
    show "fst (fetchAndUpdate e p ?a tok r projID perms1 w1)
            = Inl (Wrap err0 ''could not set cached repo visibility'')"
      using acc fail by (simp add: step_defs)
  qed
  from part1 part2 part3 show ?thesis by blast
qed

theorem fetch_accessible_sets_read_and_caches_witness:
  "fst (RepoPerms exampleEnv gitlabProvider (Some user1) [gitlabRepo ''C'' ''1''] emptyWorld)
     = Inr [''C'' \<mapsto> [Read \<mapsto> True]] \<and>
   visCache (snd (RepoPerms exampleEnv gitlabProvider (Some user1) [gitlabRepo ''C'' ''1''] emptyWorld)) 1
     = Some \<lparr>rv_Visibility = Private, rv_TTL = 3600\<rparr> \<and>
   userCache (snd (RepoPerms exampleEnv gitlabProvider (Some user1) [gitlabRepo ''C'' ''1''] emptyWorld))
       (''user1'', 1)
     = Some \<lparr>ur_Read = True, ur_TTL = 3600\<rparr> \<and>
   (\<exists>err1 msg.
      fst (RepoPerms brokenStoreEnv gitlabProvider (Some user1) [gitlabRepo ''C'' ''1''] emptyWorld)
        = Inl (Wrap err1 msg))"
proof -
  let ?C = "gitlabRepo ''C'' ''1''"
  let ?call = "RepoPerms exampleEnv gitlabProvider (Some user1) [?C] emptyWorld"
  let ?bad = "RepoPerms brokenStoreEnv gitlabProvider (Some user1) [?C] emptyWorld"
  have reach: "checkCaches gitlabProvider (accountIDOf gitlabProvider (Some user1)) [?C] emptyWorld
                 = Fetch Map.empty [?C]"
    by (simp add: example_defs eval_defs)
  have tok: "accessTokenOf exampleEnv (Some user1) = Inr ''tok1''"
    and tok': "accessTokenOf brokenStoreEnv (Some user1) = Inr ''tok1''"
    by (simp_all add: example_defs eval_defs)
  have mem: "?C \<in> set [?C]" by simp
  have atoi: "Atoi (ID (ExternalRepoSpec ?C)) = Inr 1"
    by (simp add: example_defs eval_defs)
  have acc: "GetProject exampleEnv ''tok1'' 1 = Inr \<lparr>proj_Visibility = Private\<rparr>"
    and acc': "GetProject brokenStoreEnv ''tok1'' 1 = Inr \<lparr>proj_Visibility = Private\<rparr>"
    by (simp_all add: example_defs eval_defs)
  have res: "fst ?call = Inr [''C'' \<mapsto> [Read \<mapsto> True]]"
    by (simp add: example_defs eval_defs)
  have fail: "setRepoVisibilityErr brokenStoreEnv 1 = Some (CacheIOError ''down'')"
    by (simp add: example_defs)
  have call: "?call = (fst ?call, snd ?call)" and bad: "?bad = (fst ?bad, snd ?bad)"
    by simp_all
  note good = fetch_accessible_sets_read_and_caches [OF reach tok mem atoi acc call]
  note broken = fetch_accessible_sets_read_and_caches [OF reach tok' mem atoi acc' bad]
  from good res
  have "visCache (snd ?call) 1 = Some \<lparr>rv_Visibility = Private, rv_TTL = 3600\<rparr> \<and>
        userCache (snd ?call) (''user1'', 1) = Some \<lparr>ur_Read = True, ur_TTL = 3600\<rparr>"
    by (simp add: example_defs eval_defs)
  moreover from broken fail have "\<exists>err1 msg. fst ?bad = Inl (Wrap err1 msg)" by blast
  ultimately show ?thesis using res by simp
qed

subsection \<open>The fetch loop: a repository that is not accessible\<close>

text \<open>
  In a call of an authenticated account that reaches the fetch loop and returns a map,
  for a repository of the loop that has no entry when the loop starts, whose name no
  other repository of the loop bears, and whose fetch returns not found: the returned
  map has no entry for the repository, the iteration for the repository returning the
  map it was given whenever it returns one; the call has called the visibility write
  with \<open>(private, cacheTTL)\<close> and the user-access write with
  \<open>(accountID, projID, read = false, cacheTTL)\<close>, and both entries are in the cache the
  call leaves.
\<close>

lemma unresolved_not_accessible_authenticated:
  assumes reach: "checkCaches p (accountIDOf p account) repos w = Fetch perms0 remaining"
    and tok: "accessTokenOf e account = Inr tok"
    and r: "r \<in> set remaining" "Atoi (ID (ExternalRepoSpec r)) = Inr projID"
    and nf: "GetProject e tok projID = Inl err" "HTTPErrorCode err = StatusNotFound"
    and auth: "accountIDOf p account \<noteq> []"
    and unresolved: "perms0 (RepoName r) = None"
    and names: "\<forall>r'\<in>set remaining. RepoName r' = RepoName r \<longrightarrow> r' = r"
    and call: "RepoPerms e p account repos w = (Inr perms, w')"
  shows "perms (RepoName r) = None \<and>
         (\<forall>perms1 w1 perms2 w2.
            fetchAndUpdate e p (accountIDOf p account) tok r projID perms1 w1 = (Inr perms2, w2)
            \<longrightarrow> perms2 = perms1) \<and>
         EvSetRepoVisibility projID \<lparr>rv_Visibility = Private, rv_TTL = cacheTTL p\<rparr>
           \<in> set (newEvents w w') \<and>
         visCache w' projID = Some \<lparr>rv_Visibility = Private, rv_TTL = cacheTTL p\<rparr> \<and>
         EvSetUserRepo (accountIDOf p account) projID \<lparr>ur_Read = False, ur_TTL = cacheTTL p\<rparr>
           \<in> set (newEvents w w') \<and>
         userCache w' (accountIDOf p account, projID)
           = Some \<lparr>ur_Read = False, ur_TTL = cacheTTL p\<rparr>"
proof -
  let ?a = "accountIDOf p account"
  from RepoPerms_Fetch [OF reach tok] call
  have loop: "fetchAndUpdateCache e p ?a tok remaining perms0 w = (Inr perms, w')" by simp
  have ev: "expectedVis e p ?a tok projID = Some \<lparr>rv_Visibility = Private, rv_TTL = cacheTTL p\<rparr>"
    using nf auth by (simp add: expectedVis_def)
  have eu: "expectedUser e p ?a tok projID = Some \<lparr>ur_Read = False, ur_TTL = cacheTTL p\<rparr>"
    using nf auth by (simp add: expectedUser_def)
  have "\<not> fetchAccessible e tok r" using r(2) nf by (simp add: fetchAccessible_def)
  with names have "\<not> (\<exists>r'\<in>set remaining. RepoName r' = RepoName r \<and> fetchAccessible e tok r')"
    by blast
  with loop_perms [OF loop, of "RepoName r"] unresolved
  have none: "perms (RepoName r) = None" by simp
  have same: "\<forall>perms1 w1 perms2 w2.
            fetchAndUpdate e p ?a tok r projID perms1 w1 = (Inr perms2, w2) \<longrightarrow> perms2 = perms1"
    using nf by (auto dest: step_perms)
  from none same loop_written [OF loop r] ev eu show ?thesis by simp
qed

text \<open>
  C4, where the code departs from the claim: a repository of the fetch loop whose fetch
  returns not found for an authenticated account is in the returned map, with
  read = true, when the user-access loop had settled it from a cached grant. For
  \<open>user1\<close> and the batch of D (project 2, cached as private with a grant for \<open>user1\<close>,
  not found on the remote host) and G (project 6, not cached), the user-access loop
  sets read = true for D and hands on G alone; the fetch loop runs over the variable
  \<open>remaining\<close>, which holds D and G, the fetch of D returns not found, the visibility
  entry "private" and the user-access entry "read = false" are written for project 2,
  and the call returns read = true for D. On the empty cache the call for D alone
  makes the same writes and returns no entry.
\<close>

theorem refetched_grant_survives_not_found:
  "cacheGetUserRepo grantedCachedWorld ''user1'' 2 3600 = Some \<lparr>ur_Read = True, ur_TTL = 3600\<rparr> \<and>
   GetProject exampleEnv ''tok1'' 2 = Inl (HTTPError 404) \<and>
   accountIDOf gitlabProvider (Some user1) = ''user1'' \<and>
   checkCaches gitlabProvider ''user1'' [gitlabRepo ''D'' ''2'', gitlabRepo ''G'' ''6'']
       grantedCachedWorld
     = Fetch [''D'' \<mapsto> [Read \<mapsto> True]] [gitlabRepo ''D'' ''2'', gitlabRepo ''G'' ''6''] \<and>
   RepoPerms exampleEnv gitlabProvider (Some user1)
       [gitlabRepo ''D'' ''2'', gitlabRepo ''G'' ''6''] grantedCachedWorld
     = (Inr [''D'' \<mapsto> [Read \<mapsto> True]],
        \<lparr>visCache = [2 \<mapsto> \<lparr>rv_Visibility = Private, rv_TTL = 3600\<rparr>,
                     6 \<mapsto> \<lparr>rv_Visibility = Private, rv_TTL = 3600\<rparr>],
         userCache = [(''user1'', 2) \<mapsto> \<lparr>ur_Read = False, ur_TTL = 3600\<rparr>,
                      (''user1'', 6) \<mapsto> \<lparr>ur_Read = False, ur_TTL = 3600\<rparr>],
         trace = [EvFetch ''tok1'' 2,
                  EvSetRepoVisibility 2 \<lparr>rv_Visibility = Private, rv_TTL = 3600\<rparr>,
                  EvSetUserRepo ''user1'' 2 \<lparr>ur_Read = False, ur_TTL = 3600\<rparr>,
                  EvFetch ''tok1'' 6,
                  EvSetRepoVisibility 6 \<lparr>rv_Visibility = Private, rv_TTL = 3600\<rparr>,
                  EvSetUserRepo ''user1'' 6 \<lparr>ur_Read = False, ur_TTL = 3600\<rparr>]\<rparr>) \<and>
   RepoPerms exampleEnv gitlabProvider (Some user1) [gitlabRepo ''D'' ''2''] emptyWorld
     = (Inr Map.empty,
        \<lparr>visCache = [2 \<mapsto> \<lparr>rv_Visibility = Private, rv_TTL = 3600\<rparr>],
         userCache = [(''user1'', 2) \<mapsto> \<lparr>ur_Read = False, ur_TTL = 3600\<rparr>],
         trace = [EvFetch ''tok1'' 2,
                  EvSetRepoVisibility 2 \<lparr>rv_Visibility = Private, rv_TTL = 3600\<rparr>,
                  EvSetUserRepo ''user1'' 2 \<lparr>ur_Read = False, ur_TTL = 3600\<rparr>]\<rparr>)"
  by (simp add: example_defs eval_defs)

subsection \<open>Fatal and partial failures\<close>

text \<open>
  C5 as stated fails: an identifier that does not parse is not fatal when the
  repository belongs to another code host. Line 91 keeps the repositories of the
  provider's code host only, so the identifier "MDEw" of a repository of another host
  is never parsed, and the call returns a map and no error.
\<close>

theorem foreign_unparsable_identifier_is_not_fatal:
  "Atoi (ID (ExternalRepoSpec (githubRepo ''F'' ''MDEw''))) = Inl (NumError ''MDEw'' ErrSyntax) \<and>
   RepoPerms exampleEnv gitlabProvider (Some user1)
       [githubRepo ''F'' ''MDEw'', gitlabRepo ''A'' ''4''] publicCachedWorld
     = (Inr [''A'' \<mapsto> [Read \<mapsto> True]], publicCachedWorld) \<and>
   RepoPerms exampleEnv gitlabProvider (Some user1) [githubRepo ''F'' ''MDEw''] emptyWorld
     = (Inr Map.empty, emptyWorld)"
  by (simp add: example_defs eval_defs)

text \<open>
  C5, amended: a call depends on the repositories of the provider's code host only. If
  the external identifier of one of these does not parse, the call returns the wrapped
  parse error and no map, and leaves the world as it was, whatever the other
  repositories are. If the call reaches the fetch loop, the access token decodes, the
  store does not fail, and the fetch fails with an error other than not found for a
  repository of the loop that has no entry when the loop starts and whose name no
  other repository of the loop bears, the call returns a map and no error: the map has
  no entry for the failed repository, has read = true for every repository of the
  loop whose fetch returns accessible, keeps an entry for every name that had one
  before the loop, and has an entry for every repository of the batch that belongs to
  the host and whose fetch returns accessible.
\<close>

theorem own_unparsable_is_fatal_unresolved_fetch_failure_is_partial:
  "RepoPerms e p account repos w = RepoPerms e p account (fst (Repos p repos)) w \<and>
   (\<forall>r\<in>set repos. \<forall>err.
      IsHostOf (codeHost p) r \<and> Atoi (ID (ExternalRepoSpec r)) = Inl err \<longrightarrow>
      (\<exists>err'. RepoPerms e p account repos w = (Inl (parseErr err'), w))) \<and>
   (\<forall>perms0 remaining tok r projID err.
      checkCaches p (accountIDOf p account) repos w = Fetch perms0 remaining \<and>
      accessTokenOf e account = Inr tok \<and>
      (\<forall>q. setRepoVisibilityErr e q = None) \<and> (\<forall>u q. setUserRepoErr e u q = None) \<and>
      r \<in> set remaining \<and> Atoi (ID (ExternalRepoSpec r)) = Inr projID \<and>
      GetProject e tok projID = Inl err \<and> HTTPErrorCode err \<noteq> StatusNotFound \<and>
      perms0 (RepoName r) = None \<and>
      (\<forall>r'\<in>set remaining. RepoName r' = RepoName r \<longrightarrow> r' = r) \<longrightarrow>
      (\<exists>perms w'. RepoPerms e p account repos w = (Inr perms, w') \<and>
         perms (RepoName r) = None \<and>
         (\<forall>r'\<in>set remaining. fetchAccessible e tok r' \<longrightarrow>
            perms (RepoName r') = Some [Read \<mapsto> True]) \<and>
         (\<forall>n. perms0 n \<noteq> None \<longrightarrow> perms n \<noteq> None) \<and>
         (\<forall>r'\<in>set repos. IsHostOf (codeHost p) r' \<and> fetchAccessible e tok r' \<longrightarrow>
            perms (RepoName r') \<noteq> None)))"
proof (intro conjI ballI allI impI)
  show "RepoPerms e p account repos w = RepoPerms e p account (fst (Repos p repos)) w"
    by (rule RepoPerms_own_repositories)
next
  fix r err
  assume "r \<in> set repos"
    and "IsHostOf (codeHost p) r \<and> Atoi (ID (ExternalRepoSpec r)) = Inl err"
  then show "\<exists>err'. RepoPerms e p account repos w = (Inl (parseErr err'), w)"
    using unparsable_identifier_is_fatal by blast
next
  fix perms0 remaining tok r projID err
  assume h: "checkCaches p (accountIDOf p account) repos w = Fetch perms0 remaining \<and>
      accessTokenOf e account = Inr tok \<and>
      (\<forall>q. setRepoVisibilityErr e q = None) \<and> (\<forall>u q. setUserRepoErr e u q = None) \<and>
      r \<in> set remaining \<and> Atoi (ID (ExternalRepoSpec r)) = Inr projID \<and>
      GetProject e tok projID = Inl err \<and> HTTPErrorCode err \<noteq> StatusNotFound \<and>
      perms0 (RepoName r) = None \<and>
      (\<forall>r'\<in>set remaining. RepoName r' = RepoName r \<longrightarrow> r' = r)"
  then have reach: "checkCaches p (accountIDOf p account) repos w = Fetch perms0 remaining"
    and tok: "accessTokenOf e account = Inr tok"
    and store: "\<forall>q. setRepoVisibilityErr e q = None" "\<forall>u q. setUserRepoErr e u q = None"
    and r: "r \<in> set remaining" "Atoi (ID (ExternalRepoSpec r)) = Inr projID"
    and fail: "GetProject e tok projID = Inl err" "HTTPErrorCode err \<noteq> StatusNotFound"
    and unresolved: "perms0 (RepoName r) = None"
    and names: "\<forall>r'\<in>set remaining. RepoName r' = RepoName r \<longrightarrow> r' = r"
    by simp_all
  from fetch_failure_is_partial [OF reach tok store r fail] obtain perms w' where
    call: "RepoPerms e p account repos w = (Inr perms, w')"
    and a1: "\<forall>r'\<in>set remaining. fetchAccessible e tok r' \<longrightarrow>
              perms (RepoName r') = Some [Read \<mapsto> True]"
    and a2: "\<forall>n. perms0 n \<noteq> None \<longrightarrow> perms n \<noteq> None"
    and a3: "(\<forall>r'\<in>set remaining. RepoName r' = RepoName r \<longrightarrow> r' = r) \<longrightarrow>
              perms (RepoName r) = perms0 (RepoName r)"
    by blast
  from a3 names unresolved have a0: "perms (RepoName r) = None" by simp
  have a4: "\<forall>r'\<in>set repos. IsHostOf (codeHost p) r' \<and> fetchAccessible e tok r' \<longrightarrow>
            perms (RepoName r') \<noteq> None"
  proof (intro ballI impI)
    fix r' assume "r' \<in> set repos" and h': "IsHostOf (codeHost p) r' \<and> fetchAccessible e tok r'"
    then have "r' \<in> set (fst (Repos p repos))" by (simp add: Repos_def GetCodeHostRepos_def)
    with checkCaches_Fetch_cover [OF reach]
    have "r' \<in> set remaining \<or> perms0 (RepoName r') \<noteq> None" by blast
    with a1 a2 h' show "perms (RepoName r') \<noteq> None" by auto
  qed
  from call a0 a1 a2 a4
  show "\<exists>perms w'. RepoPerms e p account repos w = (Inr perms, w') \<and>
         perms (RepoName r) = None \<and>
         (\<forall>r'\<in>set remaining. fetchAccessible e tok r' \<longrightarrow>
            perms (RepoName r') = Some [Read \<mapsto> True]) \<and>
         (\<forall>n. perms0 n \<noteq> None \<longrightarrow> perms n \<noteq> None) \<and>
         (\<forall>r'\<in>set repos. IsHostOf (codeHost p) r' \<and> fetchAccessible e tok r' \<longrightarrow>
            perms (RepoName r') \<noteq> None)"
    by blast
qed

theorem own_unparsable_is_fatal_unresolved_fetch_failure_is_partial_witness:
  "resolvedByVisibility publicCachedWorld ''user1'' (gitlabRepo ''A'' ''4'') \<and>
   (\<exists>err'. RepoPerms exampleEnv gitlabProvider (Some user1)
              [gitlabRepo ''A'' ''4'', gitlabRepo ''X'' ''abc''] publicCachedWorld
            = (Inl (parseErr err'), publicCachedWorld)) \<and>
   (\<exists>perms w'. RepoPerms exampleEnv gitlabProvider (Some user1)
                  [gitlabRepo ''E'' ''3'', gitlabRepo ''A'' ''4''] emptyWorld
                = (Inr perms, w') \<and>
        perms ''A'' = Some [Read \<mapsto> True] \<and> perms ''E'' = None)"
proof -
  let ?A = "gitlabRepo ''A'' ''4''" and ?X = "gitlabRepo ''X'' ''abc''"
    and ?E = "gitlabRepo ''E'' ''3''"
  have cached: "resolvedByVisibility publicCachedWorld ''user1'' ?A"
    by (simp add: resolvedByVisibility_def example_defs eval_defs)
  have x: "?X \<in> set [?A, ?X]"
    "IsHostOf (codeHost gitlabProvider) ?X \<and>
     Atoi (ID (ExternalRepoSpec ?X)) = Inl (NumError ''abc'' ErrSyntax)"
    by (simp_all add: example_defs eval_defs)
  have reach: "checkCaches gitlabProvider (accountIDOf gitlabProvider (Some user1))
                 [?E, ?A] emptyWorld = Fetch Map.empty [?E, ?A]"
    by (simp add: example_defs eval_defs)
  have hyps: "accessTokenOf exampleEnv (Some user1) = Inr ''tok1'' \<and>
      (\<forall>q. setRepoVisibilityErr exampleEnv q = None) \<and>
      (\<forall>u q. setUserRepoErr exampleEnv u q = None) \<and>
      ?E \<in> set [?E, ?A] \<and> Atoi (ID (ExternalRepoSpec ?E)) = Inr 3 \<and>
      GetProject exampleEnv ''tok1'' 3 = Inl (HTTPError 500) \<and>
      HTTPErrorCode (HTTPError 500) \<noteq> StatusNotFound \<and>
      (Map.empty :: perms) (RepoName ?E) = None \<and>
      (\<forall>r'\<in>set [?E, ?A]. RepoName r' = RepoName ?E \<longrightarrow> r' = ?E)"
    by (simp add: example_defs eval_defs)
  have accA: "?A \<in> set [?E, ?A]" "fetchAccessible exampleEnv ''tok1'' ?A"
    by (simp_all add: fetchAccessible_def example_defs eval_defs)
  have nm: "RepoName ?A = ''A''" "RepoName ?E = ''E''" by (simp_all add: example_defs)
  note th = own_unparsable_is_fatal_unresolved_fetch_failure_is_partial
  from th [of exampleEnv gitlabProvider "Some user1" "[?A, ?X]" publicCachedWorld] x
  have part1: "\<exists>err'. RepoPerms exampleEnv gitlabProvider (Some user1) [?A, ?X] publicCachedWorld
            = (Inl (parseErr err'), publicCachedWorld)" by blast
  from th [of exampleEnv gitlabProvider "Some user1" "[?E, ?A]" emptyWorld] reach hyps
  obtain perms w' where
    call: "RepoPerms exampleEnv gitlabProvider (Some user1) [?E, ?A] emptyWorld = (Inr perms, w')"
    and a0: "perms (RepoName ?E) = None"
    and a1: "\<forall>r'\<in>set [?E, ?A]. fetchAccessible exampleEnv ''tok1'' r' \<longrightarrow>
               perms (RepoName r') = Some [Read \<mapsto> True]"
    by blast
  from a1 accA nm have "perms ''A'' = Some [Read \<mapsto> True]" by auto
  moreover from a0 nm have "perms ''E'' = None" by simp
  ultimately show ?thesis using cached part1 call by blast
qed

subsection \<open>The visibility loop\<close>

text \<open>
  C6, where the code departs from the claim: a repository settled by the visibility
  loop is fetched again, and its visibility is written again, when the account is
  anonymous and another repository of the batch is left over. For a nil account and
  the batch of A (project 4, cached as public) and B (project 2, not cached), the
  visibility loop grants read = true for A and hands on B alone; the second loop is
  skipped, so the variable \<open>remaining\<close> still holds the whole batch at line 149, and the
  fetch loop fetches project 4 and writes its visibility. Without B the call returns
  after the visibility loop with an unchanged world, and for the authenticated
  \<open>user1\<close>, whose \<open>remaining\<close> is reassigned at line 121, project 4 is not fetched.
\<close>

theorem phase1_resolved_repository_is_fetched_for_anonymous:
  "checkCachedVisibility gitlabProvider [] publicCachedWorld
       [gitlabRepo ''A'' ''4'', gitlabRepo ''B'' ''2''] (Map.empty, [])
     = Inr ([''A'' \<mapsto> [Read \<mapsto> True]], [gitlabRepo ''B'' ''2'']) \<and>
   RepoPerms exampleEnv gitlabProvider None
       [gitlabRepo ''A'' ''4'', gitlabRepo ''B'' ''2''] publicCachedWorld
     = (Inr [''A'' \<mapsto> [Read \<mapsto> True]],
        publicCachedWorld\<lparr>trace :=
          [EvFetch [] 4,
           EvSetRepoVisibility 4 \<lparr>rv_Visibility = Public, rv_TTL = 3600\<rparr>,
           EvFetch [] 2]\<rparr>) \<and>
   RepoPerms exampleEnv gitlabProvider None [gitlabRepo ''A'' ''4''] publicCachedWorld
     = (Inr [''A'' \<mapsto> [Read \<mapsto> True]], publicCachedWorld) \<and>
   trace (snd (RepoPerms exampleEnv gitlabProvider (Some user1)
       [gitlabRepo ''A'' ''4'', gitlabRepo ''B'' ''2''] publicCachedWorld))
     = [EvFetch ''tok1'' 2,
        EvSetRepoVisibility 2 \<lparr>rv_Visibility = Private, rv_TTL = 3600\<rparr>,
        EvSetUserRepo ''user1'' 2 \<lparr>ur_Read = False, ur_TTL = 3600\<rparr>]"
  by (simp add: example_defs eval_defs)

subsection \<open>The user-access loop\<close>

text \<open>
  C7, where the code departs from the claim: a repository settled by the user-access
  loop with a cached read = false is fetched again when another repository of the
  batch misses the user-access cache, and the fetch overwrites the entry. For \<open>user1\<close>
  and the batch of C (project 1, with a cached denial, accessible on the remote host)
  and D (project 2, not cached), the user-access loop sets read = false for C and hands
  on D alone; the fetch loop runs over the variable \<open>remaining\<close>, which holds C and D,
  and the call returns read = true for C. Without D the call returns read = false for
  C, with an unchanged world.
\<close>

theorem cached_denial_overwritten_by_fetch:
  "cacheGetUserRepo deniedCachedWorld ''user1'' 1 3600 = Some \<lparr>ur_Read = False, ur_TTL = 3600\<rparr> \<and>
   checkCachedUserRepos gitlabProvider ''user1'' deniedCachedWorld
       [gitlabRepo ''C'' ''1'', gitlabRepo ''D'' ''2''] (Map.empty, [])
     = Inr ([''C'' \<mapsto> [Read \<mapsto> False]], [gitlabRepo ''D'' ''2'']) \<and>
   fst (RepoPerms exampleEnv gitlabProvider (Some user1)
          [gitlabRepo ''C'' ''1'', gitlabRepo ''D'' ''2''] deniedCachedWorld)
     = Inr [''C'' \<mapsto> [Read \<mapsto> True]] \<and>
   trace (snd (RepoPerms exampleEnv gitlabProvider (Some user1)
          [gitlabRepo ''C'' ''1'', gitlabRepo ''D'' ''2''] deniedCachedWorld))
     = [EvFetch ''tok1'' 1,
        EvSetRepoVisibility 1 \<lparr>rv_Visibility = Private, rv_TTL = 3600\<rparr>,
        EvSetUserRepo ''user1'' 1 \<lparr>ur_Read = True, ur_TTL = 3600\<rparr>,
        EvFetch ''tok1'' 2,
        EvSetRepoVisibility 2 \<lparr>rv_Visibility = Private, rv_TTL = 3600\<rparr>,
        EvSetUserRepo ''user1'' 2 \<lparr>ur_Read = False, ur_TTL = 3600\<rparr>] \<and>
   RepoPerms exampleEnv gitlabProvider (Some user1) [gitlabRepo ''C'' ''1''] deniedCachedWorld
     = (Inr [''C'' \<mapsto> [Read \<mapsto> False]], deniedCachedWorld)"
  by (simp add: example_defs eval_defs)

subsection \<open>The fetch loop: not accessible to an anonymous account\<close>

text \<open>
  C8: in a call of an anonymous account that reaches the fetch loop, for a repository
  of the loop whose fetch returns not found: whatever the call returns, it makes no
  visibility write and no user-access write for the project, and the cache entries of
  the project are what they were; the iteration for the repository returns the
  permission map it was given and only records the fetch; and a returned map holds for
  the repository what the map held before the loop, where no other repository of the
  loop bears its name.
\<close>

theorem fetch_not_accessible_anonymous:
  assumes reach: "checkCaches p (accountIDOf p account) repos w = Fetch perms0 remaining"
    and tok: "accessTokenOf e account = Inr tok"
    and r: "r \<in> set remaining" "Atoi (ID (ExternalRepoSpec r)) = Inr projID"
    and nf: "GetProject e tok projID = Inl err" "HTTPErrorCode err = StatusNotFound"
    and anon: "accountIDOf p account = []"
    and call: "RepoPerms e p account repos w = (res, w')"
  shows "(\<forall>v. EvSetRepoVisibility projID v \<notin> set (newEvents w w')) \<and>
         (\<forall>u v. EvSetUserRepo u projID v \<notin> set (newEvents w w')) \<and>
         visCache w' projID = visCache w projID \<and>
         (\<forall>u. userCache w' (u, projID) = userCache w (u, projID)) \<and>
         (\<forall>perms. res = Inr perms \<and>
            (\<forall>r'\<in>set remaining. RepoName r' = RepoName r \<longrightarrow> r' = r) \<longrightarrow>
            perms (RepoName r) = perms0 (RepoName r)) \<and>
         (\<forall>perms1 w1. fetchAndUpdate e p (accountIDOf p account) tok r projID perms1 w1
            = (Inr perms1, w1\<lparr>trace := trace w1 @ [EvFetch tok projID]\<rparr>))"
proof -
  let ?a = "accountIDOf p account"
  from RepoPerms_Fetch [OF reach tok] call
  have loop: "fetchAndUpdateCache e p ?a tok remaining perms0 w = (res, w')" by simp
  have ev: "expectedVis e p ?a tok projID = None"
    using nf anon by (simp add: expectedVis_def)
  have eu: "expectedUser e p ?a tok projID = None"
    using nf anon by (simp add: expectedUser_def)
  from loop_trace [OF loop] obtain evs where
    evs: "trace w' = trace w @ evs" "\<forall>ev\<in>set evs. expectedEvent e p ?a tok ev" by blast
  then have ne: "newEvents w w' = evs" by (simp add: newEvents_def)
  have c1: "\<forall>v. EvSetRepoVisibility projID v \<notin> set (newEvents w w')"
  proof (intro allI notI)
    fix v assume "EvSetRepoVisibility projID v \<in> set (newEvents w w')"
    with ne evs(2) have "expectedEvent e p ?a tok (EvSetRepoVisibility projID v)" by blast
    with ev show False by simp
  qed
  have c2: "\<forall>u v. EvSetUserRepo u projID v \<notin> set (newEvents w w')"
  proof (intro allI notI)
    fix u v assume "EvSetUserRepo u projID v \<in> set (newEvents w w')"
    with ne evs(2) have "expectedEvent e p ?a tok (EvSetUserRepo u projID v)" by blast
    with eu show False by simp
  qed
  have c3: "visCache w' projID = visCache w projID"
    using loop_visCache [OF loop, of projID] ev by auto
  have c4: "\<forall>u. userCache w' (u, projID) = userCache w (u, projID)"
    using loop_userCache [OF loop, of _ projID] eu by auto
  have c5: "\<forall>perms. res = Inr perms \<and>
            (\<forall>r'\<in>set remaining. RepoName r' = RepoName r \<longrightarrow> r' = r) \<longrightarrow>
            perms (RepoName r) = perms0 (RepoName r)"
  proof (intro allI impI)
    fix perms
    assume h: "res = Inr perms \<and> (\<forall>r'\<in>set remaining. RepoName r' = RepoName r \<longrightarrow> r' = r)"
    with loop have ok: "fetchAndUpdateCache e p ?a tok remaining perms0 w = (Inr perms, w')"
      by simp
    have "\<not> fetchAccessible e tok r" using r(2) nf by (simp add: fetchAccessible_def)
    with h have "\<not> (\<exists>r'\<in>set remaining. RepoName r' = RepoName r \<and> fetchAccessible e tok r')"
      by blast
    with loop_perms [OF ok, of "RepoName r"] show "perms (RepoName r) = perms0 (RepoName r)"
      by simp
  qed
  have c6: "\<forall>perms1 w1. fetchAndUpdate e p ?a tok r projID perms1 w1
            = (Inr perms1, w1\<lparr>trace := trace w1 @ [EvFetch tok projID]\<rparr>)"
    using nf anon by (simp add: step_defs)
  from c1 c2 c3 c4 c5 c6 show ?thesis by blast
qed

theorem fetch_not_accessible_anonymous_witness:
  "(\<forall>v. EvSetRepoVisibility 5 v \<notin> set (newEvents emptyWorld
         (snd (RepoPerms exampleEnv gitlabProvider None [gitlabRepo ''E'' ''5''] emptyWorld)))) \<and>
   (\<forall>u v. EvSetUserRepo u 5 v \<notin> set (newEvents emptyWorld
         (snd (RepoPerms exampleEnv gitlabProvider None [gitlabRepo ''E'' ''5''] emptyWorld)))) \<and>
   visCache (snd (RepoPerms exampleEnv gitlabProvider None [gitlabRepo ''E'' ''5''] emptyWorld)) 5
     = None \<and>
   (\<forall>u. userCache (snd (RepoPerms exampleEnv gitlabProvider None [gitlabRepo ''E'' ''5''] emptyWorld))
      (u, 5) = None) \<and>
   (\<exists>perms. fst (RepoPerms exampleEnv gitlabProvider None [gitlabRepo ''E'' ''5''] emptyWorld)
      = Inr perms \<and> perms ''E'' = None)"
proof -
  let ?E = "gitlabRepo ''E'' ''5''"
  let ?call = "RepoPerms exampleEnv gitlabProvider None [?E] emptyWorld"
  have reach: "checkCaches gitlabProvider (accountIDOf gitlabProvider None) [?E] emptyWorld
                 = Fetch Map.empty [?E]"
    by (simp add: example_defs eval_defs)
  have tok: "accessTokenOf exampleEnv None = Inr []"
    by (simp add: example_defs eval_defs)
  have mem: "?E \<in> set [?E]" by simp
  have atoi: "Atoi (ID (ExternalRepoSpec ?E)) = Inr 5"
    by (simp add: example_defs eval_defs)
  have nf: "GetProject exampleEnv [] 5 = Inl (HTTPError 404)"
    "HTTPErrorCode (HTTPError 404) = StatusNotFound"
    by (simp_all add: example_defs eval_defs)
  have anon: "accountIDOf gitlabProvider None = []"
    by (simp add: example_defs eval_defs)
  have call: "?call = (fst ?call, snd ?call)" by simp
  have res: "fst ?call = Inr Map.empty" by (simp add: example_defs eval_defs)
  have names: "\<forall>r'\<in>set [?E]. RepoName r' = RepoName ?E \<longrightarrow> r' = ?E" by simp
  have name: "RepoName ?E = ''E''" by (simp add: example_defs)
  note th = fetch_not_accessible_anonymous [OF reach tok mem atoi nf anon call]
  from th res names have "\<exists>perms. fst ?call = Inr perms \<and> perms ''E'' = None"
    unfolding name by simp
  moreover from th have "visCache (snd ?call) 5 = None" "\<forall>u. userCache (snd ?call) (u, 5) = None"
    by (simp_all add: emptyWorld_def)
  moreover from th have "\<forall>v. EvSetRepoVisibility 5 v \<notin> set (newEvents emptyWorld (snd ?call))"
    "\<forall>u v. EvSetUserRepo u 5 v \<notin> set (newEvents emptyWorld (snd ?call))"
    by blast+
  ultimately show ?thesis by blast
qed

subsection \<open>The remote visibility fetch\<close>

text \<open>
  C9: \<open>fetchProjVis\<close> returns \<open>(false, "", nil)\<close> when the remote host answers not found
  (HTTP 404) for the given credential, returns \<open>(false, "", err)\<close> with the error of the
  client for every other failure, and returns \<open>(true, proj.Visibility, nil)\<close> when the
  project is retrieved; its error is non-nil exactly when the client failed with
  something other than not found.
\<close>

theorem fetchProjVis_outcomes:
  "(\<forall>err. GetProject e accessToken projID = Inl err \<and> HTTPErrorCode err = StatusNotFound \<longrightarrow>
      fst (fetchProjVis e accessToken projID w) = (False, [], None)) \<and>
   (\<forall>err. GetProject e accessToken projID = Inl err \<and> HTTPErrorCode err \<noteq> StatusNotFound \<longrightarrow>
      fst (fetchProjVis e accessToken projID w) = (False, [], Some err)) \<and>
   (\<forall>proj. GetProject e accessToken projID = Inr proj \<longrightarrow>
      fst (fetchProjVis e accessToken projID w) = (True, proj_Visibility proj, None)) \<and>
   (snd (snd (fst (fetchProjVis e accessToken projID w))) \<noteq> None \<longleftrightarrow>
      (\<exists>err. GetProject e accessToken projID = Inl err \<and> HTTPErrorCode err \<noteq> StatusNotFound))"
  by (auto simp: fetchProjVis_def Let_def split: sum.splits)

theorem fetchProjVis_outcomes_witness:
  "fst (fetchProjVis exampleEnv ''tok1'' 2 emptyWorld) = (False, [], None) \<and>
   fst (fetchProjVis exampleEnv ''tok1'' 3 emptyWorld) = (False, [], Some (HTTPError 500)) \<and>
   fst (fetchProjVis exampleEnv ''tok1'' 1 emptyWorld) = (True, Private, None)"
proof -
  have h2: "GetProject exampleEnv ''tok1'' 2 = Inl (HTTPError 404) \<and>
            HTTPErrorCode (HTTPError 404) = StatusNotFound"
    by (simp add: example_defs StatusNotFound_def)
  have h3: "GetProject exampleEnv ''tok1'' 3 = Inl (HTTPError 500) \<and>
            HTTPErrorCode (HTTPError 500) \<noteq> StatusNotFound"
    by (simp add: example_defs StatusNotFound_def)
  have h1: "GetProject exampleEnv ''tok1'' 1 = Inr \<lparr>proj_Visibility = Private\<rparr>"
    by (simp add: example_defs)
  from fetchProjVis_outcomes [of exampleEnv "''tok1''" 2 emptyWorld] h2
  have c2: "fst (fetchProjVis exampleEnv ''tok1'' 2 emptyWorld) = (False, [], None)" by blast
  from fetchProjVis_outcomes [of exampleEnv "''tok1''" 3 emptyWorld] h3
  have c3: "fst (fetchProjVis exampleEnv ''tok1'' 3 emptyWorld) = (False, [], Some (HTTPError 500))"
    by blast
  from fetchProjVis_outcomes [of exampleEnv "''tok1''" 1 emptyWorld] h1
  have c1: "fst (fetchProjVis exampleEnv ''tok1'' 1 emptyWorld) = (True, Private, None)"
    by simp
  from c1 c2 c3 show ?thesis by simp
qed

subsection \<open>The credential of the fetch loop\<close>

text \<open>
  C10: in a call with a non-nil account that reaches the fetch loop, whether or not the
  account's service identity is that of the provider: if the stored external-account
  data does not decode, the call returns the decoding error and no map, and leaves
  the world as it was; if it decodes, the call is the fetch loop run with the decoded
  access token, at least one fetch is made with that token, and every fetch of the
  call is made with it.
\<close>

theorem fetch_uses_decoded_token_of_any_account:
  assumes reach: "checkCaches p (accountIDOf p (Some a)) repos w = Fetch perms0 remaining"
  shows "(\<forall>err. GetExternalAccountData e (ExternalAccountData a) = Inl err \<longrightarrow>
            RepoPerms e p (Some a) repos w = (Inl err, w)) \<and>
         (\<forall>tok. GetExternalAccountData e (ExternalAccountData a) = Inr tok \<longrightarrow>
            RepoPerms e p (Some a) repos w
              = fetchAndUpdateCache e p (accountIDOf p (Some a)) tok remaining perms0 w \<and>
            (\<exists>q. EvFetch tok q \<in> set (newEvents w (snd (RepoPerms e p (Some a) repos w)))) \<and>
            (\<forall>t q. EvFetch t q \<in> set (newEvents w (snd (RepoPerms e p (Some a) repos w)))
                \<longrightarrow> t = tok))"
proof (intro conjI allI impI)
  fix err assume "GetExternalAccountData e (ExternalAccountData a) = Inl err"
  with reach show "RepoPerms e p (Some a) repos w = (Inl err, w)"
    by (simp add: RepoPerms_def accessTokenOf_def Let_def)
next
  fix tok assume dec: "GetExternalAccountData e (ExternalAccountData a) = Inr tok"
  then have tok: "accessTokenOf e (Some a) = Inr tok" by (simp add: accessTokenOf_def)
  let ?w' = "snd (RepoPerms e p (Some a) repos w)"
  let ?res = "fst (RepoPerms e p (Some a) repos w)"
  show eq: "RepoPerms e p (Some a) repos w
          = fetchAndUpdateCache e p (accountIDOf p (Some a)) tok remaining perms0 w"
    by (rule RepoPerms_Fetch [OF reach tok])
  then have loop: "fetchAndUpdateCache e p (accountIDOf p (Some a)) tok remaining perms0 w
                     = (?res, ?w')" by simp
  from checkCaches_Fetch [OF reach] obtain r rs pid where
    rem: "remaining = r # rs" "Atoi (ID (ExternalRepoSpec r)) = Inr pid"
    by (cases remaining) auto
  from loop_first_fetch [OF loop [unfolded rem(1)] rem(2)]
  show "\<exists>q. EvFetch tok q \<in> set (newEvents w ?w')" by blast
  from loop_trace [OF loop] obtain evs where
    evs: "trace ?w' = trace w @ evs"
         "\<forall>ev\<in>set evs. expectedEvent e p (accountIDOf p (Some a)) tok ev" by blast
  then have ne: "newEvents w ?w' = evs" by (simp add: newEvents_def)
  fix t q assume "EvFetch t q \<in> set (newEvents w ?w')"
  with ne evs(2) have "expectedEvent e p (accountIDOf p (Some a)) tok (EvFetch t q)" by blast
  then show "t = tok" by simp
qed

theorem fetch_uses_decoded_token_of_any_account_witness:
  "accountIDOf gitlabProvider (Some undecodableUser) = [] \<and>
   RepoPerms exampleEnv gitlabProvider (Some undecodableUser) [gitlabRepo ''C'' ''1''] emptyWorld
     = (Inl (DecodeError ''garbage''), emptyWorld) \<and>
   accountIDOf gitlabProvider (Some otherHostUser) = [] \<and>
   (\<exists>q. EvFetch ''tok1'' q \<in> set (newEvents emptyWorld
      (snd (RepoPerms exampleEnv gitlabProvider (Some otherHostUser) [gitlabRepo ''C'' ''1'']
              emptyWorld))))"
proof -
  let ?C = "gitlabRepo ''C'' ''1''"
  have anon: "accountIDOf gitlabProvider (Some undecodableUser) = []"
    "accountIDOf gitlabProvider (Some otherHostUser) = []"
    by (simp_all add: example_defs eval_defs)
  have reach1: "checkCaches gitlabProvider (accountIDOf gitlabProvider (Some undecodableUser))
                  [?C] emptyWorld = Fetch Map.empty [?C]"
    and reach2: "checkCaches gitlabProvider (accountIDOf gitlabProvider (Some otherHostUser))
                  [?C] emptyWorld = Fetch Map.empty [?C]"
    by (simp_all add: example_defs eval_defs)
  have bad: "GetExternalAccountData exampleEnv (ExternalAccountData undecodableUser)
               = Inl (DecodeError ''garbage'')"
    and good: "GetExternalAccountData exampleEnv (ExternalAccountData otherHostUser) = Inr ''tok1''"
    by (simp_all add: example_defs)
  from fetch_uses_decoded_token_of_any_account [OF reach1, of exampleEnv] bad
  have "RepoPerms exampleEnv gitlabProvider (Some undecodableUser) [?C] emptyWorld
          = (Inl (DecodeError ''garbage''), emptyWorld)" by blast
  moreover from fetch_uses_decoded_token_of_any_account [OF reach2, of exampleEnv] good
  have "\<exists>q. EvFetch ''tok1'' q \<in> set (newEvents emptyWorld
      (snd (RepoPerms exampleEnv gitlabProvider (Some otherHostUser) [?C] emptyWorld)))"
    by blast
  ultimately show ?thesis using anon by simp
qed

end
